theory Spec2Isabelle
  imports Main
begin

section \<open>Data model\<close>

text \<open>
  The program is the single function \<open>startApplication\<close> of \<open>steamgrid.go\<close>. It drives
  functions of the same package that live in other files (\<open>LoadOverlays\<close>,
  \<open>GetSteamInstallation\<close>, \<open>GetUsers\<close>, \<open>GetGames\<close>, \<open>LoadExisting\<close>,
  \<open>DownloadImage\<close>, \<open>ApplyOverlay\<close>, \<open>BackupGame\<close>) and four functions of Go's
  standard library (\<open>os.MkdirAll\<close>, \<open>ioutil.WriteFile\<close>, \<open>os.RemoveAll\<close>,
  \<open>os.Rename\<close>). All twelve are parameters of the model, collected in the record
  \<open>env\<close>; each takes the state of the outside world (file system, network) and returns
  the new one with its results.

  A Go \<open>error\<close> is used only through \<open>err != nil\<close> and \<open>err.Error()\<close>, so it is the
  message, and a nilable error is \<open>error option\<close>. A \<open>[]byte\<close> that may be \<open>nil\<close> is
  \<open>bytes option\<close>: \<open>None\<close> is \<open>nil\<close>, \<open>Some []\<close> an empty, non-nil slice.
  Counters are Go \<open>int\<close>s that count games; they are natural numbers here.
\<close>

type_synonym path = string
type_synonym bytes = string
type_synonym error = string
type_synonym ref = nat

text \<open>
  The struct \<open>Game\<close> is declared outside \<open>steamgrid.go\<close>. The fields are the ones the
  source reads and writes (\<open>ID\<close>, \<open>Name\<close>, \<open>ImageSource\<close>, \<open>CleanImageBytes\<close>,
  \<open>OverlayImageBytes\<close>, \<open>ImageExt\<close>) and \<open>Category\<close> from section 3 of the
  specification.
\<close>

record Game =
  ID :: string
  Name :: string
  Category :: string
  CleanImageBytes :: "bytes option"
  OverlayImageBytes :: "bytes option"
  ImageExt :: string
  ImageSource :: string

text \<open>The struct of a user profile; the source reads \<open>user.Name\<close> and \<open>user.Dir\<close>.\<close>

record User =
  UserName :: string
  Dir :: path

text \<open>
  The value \<open>LoadOverlays\<close> returns: a Go map from category to overlay image, as an
  association list with one entry per key, so that \<open>len(overlays)\<close> is its length.
\<close>

type_synonym overlays = "(string \<times> bytes) list"

text \<open>
  Everything the program does to the outside, in order: what it prints, and every call
  of a function of \<open>env\<close> with the arguments and the error it returned; for
  \<open>DownloadImage\<close> also the \<open>ImageSource\<close> it left in the game and \<open>fromSearch\<close>.
\<close>

datatype event =
    Stdout string
  | Stderr string
  | ReadLine
  | Exit nat
  | CallLoadOverlays path "error option"
  | CallGetSteamInstallation "error option"
  | CallGetUsers path "error option"
  | CallGetGames string
  | CallLoadExisting path path ref
  | CallMkdirAll path "error option"
  | CallDownloadImage path ref string bool "error option"
  | CallApplyOverlay ref "error option"
  | CallBackupGame path ref "error option"
  | CallWriteFile path "bytes option" "error option"
  | CallRemoveAll path "error option"
  | CallRename path path "error option"

record 'w env =
  exeDir :: path
  LoadOverlays :: "'w \<Rightarrow> path \<Rightarrow> 'w \<times> (error + overlays)"
  GetSteamInstallation :: "'w \<Rightarrow> 'w \<times> (error + path)"
  GetUsers :: "'w \<Rightarrow> path \<Rightarrow> 'w \<times> (error + User list)"
  GetGames :: "'w \<Rightarrow> User \<Rightarrow> 'w \<times> Game list"
  LoadExisting :: "'w \<Rightarrow> path \<Rightarrow> path \<Rightarrow> Game \<Rightarrow> 'w \<times> Game"
  DownloadImage :: "'w \<Rightarrow> path \<Rightarrow> Game \<Rightarrow> 'w \<times> Game \<times> bool \<times> error option"
  ApplyOverlay :: "'w \<Rightarrow> Game \<Rightarrow> overlays \<Rightarrow> 'w \<times> Game \<times> error option"
  BackupGame :: "'w \<Rightarrow> path \<Rightarrow> Game \<Rightarrow> 'w \<times> Game \<times> error option"
  MkdirAll :: "'w \<Rightarrow> path \<Rightarrow> 'w \<times> error option"
  WriteFile :: "'w \<Rightarrow> path \<Rightarrow> bytes option \<Rightarrow> 'w \<times> error option"
  RemoveAll :: "'w \<Rightarrow> path \<Rightarrow> 'w \<times> error option"
  Rename :: "'w \<Rightarrow> path \<Rightarrow> path \<Rightarrow> 'w \<times> error option"

text \<open>
  The state of a run. The games are Go pointers \<open>*Game\<close>: \<open>heap\<close> maps an address to
  the record it points to, \<open>nextRef\<close> is the first unused address, and the three summary
  lists hold addresses, as the slices \<open>[]*Game\<close> of the source do.
\<close>

record 'w state =
  world :: 'w
  heap :: "ref \<Rightarrow> Game"
  nextRef :: ref
  nOverlaysApplied :: nat
  nDownloaded :: nat
  notFounds :: "ref list"
  searchedGames :: "ref list"
  failedGames :: "ref list"
  errorMessages :: "string list"
  trace :: "event list"

text \<open>
  How a piece of the program ends: it falls through to the next statement, it executes
  \<open>continue\<close>, it leaves the process through \<open>errorAndExit\<close>, or the Go runtime panics
  on an index out of range.
\<close>

datatype 'w control =
    Normal "'w state"
  | Continue "'w state"
  | Exited "'w state"
  | Panicked "'w state"

fun final :: "'w control \<Rightarrow> 'w state" where
  "final (Normal st) = st"
| "final (Continue st) = st"
| "final (Exited st) = st"
| "final (Panicked st) = st"

definition andThen :: "'w control \<Rightarrow> ('w state \<Rightarrow> 'w control) \<Rightarrow> 'w control" where
  "andThen c f = (case c of Normal st \<Rightarrow> f st | Continue st \<Rightarrow> Continue st
                  | Exited st \<Rightarrow> Exited st | Panicked st \<Rightarrow> Panicked st)"

section \<open>Printing and paths\<close>

definition nl :: string where
  "nl = [CHR 0x0A]"

definition emit :: "event \<Rightarrow> 'w state \<Rightarrow> 'w state" where
  "emit e st = st\<lparr>trace := trace st @ [e]\<rparr>"

definition Printf :: "string \<Rightarrow> 'w state \<Rightarrow> 'w state" where
  "Printf s st = emit (Stdout s) st"

definition Println :: "string \<Rightarrow> 'w state \<Rightarrow> 'w state" where
  "Println s st = emit (Stdout (s @ nl)) st"

text \<open>The verb \<open>%v\<close> of an \<open>int\<close> that is not negative: its decimal digits.\<close>

definition digit :: "nat \<Rightarrow> char" where
  "digit d = char_of (48 + d)"

function show_nat :: "nat \<Rightarrow> string" where
  "show_nat n = (if n < 10 then [digit n] else show_nat (n div 10) @ [digit (n mod 10)])"
  by pat_completeness auto
termination
  by (relation "measure id") auto

declare show_nat.simps [simp del]

text \<open>
  \<open>filepath.Clean\<close> and \<open>filepath.Join\<close> of Go's standard library, on a system whose
  separator is \<open>/\<close>. \<open>Clean\<close> works on the elements between the separators: empty
  elements and \<open>.\<close> are dropped; \<open>..\<close> removes the element before it, unless there is
  none or it is \<open>..\<close> itself, and then \<open>..\<close> is dropped in a rooted path and kept in
  any other. The result ends in a separator only if it is the root, and the empty path
  becomes \<open>.\<close>. \<open>Join\<close> ignores the empty elements, joins the others with the separator
  and cleans the result; if there is no element that is not empty the result is empty.
\<close>

fun joinWith :: "path list \<Rightarrow> path" where
  "joinWith [] = []"
| "joinWith [p] = p"
| "joinWith (p # q # ps) = p @ ''/'' @ joinWith (q # ps)"

fun splitSep :: "path \<Rightarrow> path list" where
  "splitSep [] = [[]]"
| "splitSep (c # cs) =
     (if c = CHR ''/'' then [] # splitSep cs
      else (case splitSep cs of
              [] \<Rightarrow> [[c]]
            | e # es \<Rightarrow> (c # e) # es))"

fun cleanElems :: "bool \<Rightarrow> path list \<Rightarrow> path list \<Rightarrow> path list" where
  "cleanElems rooted out [] = out"
| "cleanElems rooted out (e # es) =
     (if e = [] \<or> e = ''.'' then cleanElems rooted out es
      else if e = ''..'' then
        (if out \<noteq> [] \<and> last out \<noteq> ''..'' then cleanElems rooted (butlast out) es
         else if rooted then cleanElems rooted out es
         else cleanElems rooted (out @ [e]) es)
      else cleanElems rooted (out @ [e]) es)"

definition Clean :: "path \<Rightarrow> path" where
  "Clean p =
     (if p = [] then ''.''
      else
        let rooted = (hd p = CHR ''/'');
            body = joinWith (cleanElems rooted [] (splitSep p))
        in if rooted then CHR ''/'' # body
           else if body = [] then ''.''
           else body)"

definition Join :: "path list \<Rightarrow> path" where
  "Join elems =
     (if filter (\<lambda>p. p \<noteq> []) elems = [] then []
      else Clean (joinWith (filter (\<lambda>p. p \<noteq> []) elems)))"

section \<open>The texts the program prints\<close>

text \<open>
  The string literals of the source, each under a name. \<open>Println\<close> adds the final
  newline; the newlines inside a literal are written \<open>nl\<close>.
\<close>

definition txtLoadingOverlays :: string where
  "txtLoadingOverlays = ''Loading overlays...''"

definition txtOverlayHint :: string where
  "txtOverlayHint = ''You can find many user-created overlays at https://wwww.reddit.com/r/steamgrid/wiki/overlays .''"

definition txtNoOverlays :: string where
  "txtNoOverlays = ''No category overlays found. You can put overlay images in the folder 'overlays by category', where the filename is the game category.''
                   @ nl @ nl @ txtOverlayHint @ nl @ nl @ ''Continuing without overlays...'' @ nl"

definition txtLoaded :: "nat \<Rightarrow> string" where
  "txtLoaded n = ''Loaded '' @ show_nat n @ '' overlays. '' @ nl @ nl @ txtOverlayHint @ nl @ nl"

definition txtLookingForSteam :: string where
  "txtLookingForSteam = ''Looking for Steam directory...''"

definition txtLoadingUsers :: string where
  "txtLoadingUsers = ''Loading users...''"

definition txtNoUsers :: string where
  "txtNoUsers = ''No users found at Steam/userdata. Have you used Steam before in this computer?''"

definition txtLoadingGamesFor :: "string \<Rightarrow> string" where
  "txtLoadingGamesFor name = ''Loading games for '' @ name"

definition txtLoadingExisting :: string where
  "txtLoadingExisting = ''Loading existing images and backups...''"

definition txtCreatingNewGrid :: string where
  "txtCreatingNewGrid = ''Creating new grid...''"

definition txtFailedCreate :: string where
  "txtFailedCreate = ''Failed to create new empty 'grid':''"

definition txtProcessing :: "string \<Rightarrow> nat \<Rightarrow> nat \<Rightarrow> string" where
  "txtProcessing name i n =
     ''Processing '' @ name @ '' ('' @ show_nat i @ ''/'' @ show_nat n @ '')''"

definition txtUnknownGame :: "string \<Rightarrow> string" where
  "txtUnknownGame ident = ''unknown game with id '' @ ident"

definition txtNotFound :: string where
  "txtNotFound = '' not found'' @ nl"

definition txtFoundFrom :: "string \<Rightarrow> string" where
  "txtFoundFrom source = '' found from '' @ source @ nl"

definition txtFailedIdentify :: string where
  "txtFailedIdentify = ''Failed to identify image format.''"

definition txtFailedWrite :: "string \<Rightarrow> string \<Rightarrow> string" where
  "txtFailedWrite name err = ''Failed to write image for '' @ name @ '' because: '' @ err @ nl"

definition txtRemovingOld :: string where
  "txtRemovingOld = ''Removing old grid...''"

definition txtFailedRemove :: string where
  "txtFailedRemove = ''Failed to remove old directory:''"

definition txtMoving :: string where
  "txtMoving = ''Moving new grid to correct location...''"

definition txtFailedMove :: string where
  "txtFailedMove = ''Failed to move new grid dir to correct location:''"

definition txtTotals :: "nat \<Rightarrow> nat \<Rightarrow> string" where
  "txtTotals downloaded applied =
     nl @ nl @ show_nat downloaded @ '' images downloaded and '' @ show_nat applied
     @ '' overlays applied.'' @ nl @ nl"

definition txtSearchedHeader :: "nat \<Rightarrow> string" where
  "txtSearchedHeader n =
     show_nat n @ '' images were found with a Google search and may not be accurate:'' @ nl"

definition txtSearchedLine :: "string \<Rightarrow> string \<Rightarrow> string" where
  "txtSearchedLine name ident = ''* '' @ name @ '' (steam id '' @ ident @ '')'' @ nl"

definition txtNotFoundHeader :: "nat \<Rightarrow> string" where
  "txtNotFoundHeader n = show_nat n @ '' images could not be found anywhere:'' @ nl"

definition txtNotFoundLine :: "string \<Rightarrow> string \<Rightarrow> string" where
  "txtNotFoundLine name ident = ''- '' @ name @ '' (id '' @ ident @ '')'' @ nl"

definition txtFailedHeader :: "nat \<Rightarrow> string" where
  "txtFailedHeader n =
     show_nat n @ '' images were found but had errors and could not be overlaid:'' @ nl"

definition txtFailedLine :: "string \<Rightarrow> string \<Rightarrow> string \<Rightarrow> string" where
  "txtFailedLine name ident msg =
     ''- '' @ name @ '' (id '' @ ident @ '') ('' @ msg @ '')'' @ nl"

definition txtDone :: string where
  "txtDone = ''Open Steam in grid view to see the results!'' @ nl @ nl @ ''Press enter to close.''"

section \<open>The program\<close>

text \<open>Lines 16 to 21: print the error, wait for a line on standard input, exit.\<close>

definition errorAndExit :: "error \<Rightarrow> 'w state \<Rightarrow> 'w control" where
  "errorAndExit err st = Exited (emit (Exit 0) (emit ReadLine (Println err st)))"

text \<open>
  Lines 102 to 119, ``Download if missing''. \<open>DownloadImage\<close> gets the pointer and may
  change the record; \<open>game.ImageSource\<close> is read again after the call.
\<close>

definition downloadIfMissing :: "'w env \<Rightarrow> path \<Rightarrow> ref \<Rightarrow> 'w state \<Rightarrow> 'w control" where
  "downloadIfMissing env newGridDir game st =
     (if ImageSource (heap st game) = [] then
        (case DownloadImage env (world st) newGridDir (heap st game) of
           (w, g, fromSearch, err) \<Rightarrow>
             let st1 = emit (CallDownloadImage newGridDir game (ImageSource g) fromSearch err)
                         (st\<lparr>world := w, heap := (heap st)(game := g)\<rparr>)
             in (case err of
                   Some e \<Rightarrow> errorAndExit e st1
                 | None \<Rightarrow>
                     if ImageSource (heap st1 game) = [] then
                       Continue (Printf txtNotFound
                                   (st1\<lparr>notFounds := notFounds st1 @ [game]\<rparr>))
                     else
                       let st2 = st1\<lparr>nDownloaded := nDownloaded st1 + 1\<rparr>
                       in Normal (if fromSearch
                                  then st2\<lparr>searchedGames := searchedGames st2 @ [game]\<rparr>
                                  else st2)))
      else Normal st)"

text \<open>
  Lines 120 to 135, ``Apply overlay'': the error of \<open>ApplyOverlay\<close> is printed with the
  builtin \<open>print\<close> (standard error) and recorded in the two parallel lists; then the
  overlay is counted, or the clean image takes its place.
\<close>

definition applyOverlayStage :: "'w env \<Rightarrow> overlays \<Rightarrow> ref \<Rightarrow> 'w state \<Rightarrow> 'w state" where
  "applyOverlayStage env overlays game st =
     (let st0 = Printf (txtFoundFrom (ImageSource (heap st game))) st
      in case ApplyOverlay env (world st0) (heap st0 game) overlays of
           (w, g, err) \<Rightarrow>
             let st1 = emit (CallApplyOverlay game err)
                         (st0\<lparr>world := w, heap := (heap st0)(game := g)\<rparr>);
                 st2 = (case err of
                          Some e \<Rightarrow>
                            (emit (Stderr (e @ nl)) st1)
                              \<lparr>failedGames := failedGames st1 @ [game],
                               errorMessages := errorMessages st1 @ [e]\<rparr>
                        | None \<Rightarrow> st1)
             in if OverlayImageBytes (heap st2 game) \<noteq> None
                then st2\<lparr>nOverlaysApplied := nOverlaysApplied st2 + 1\<rparr>
                else st2\<lparr>heap := (heap st2)
                         (game := (heap st2 game)
                            \<lparr>OverlayImageBytes := CleanImageBytes (heap st2 game)\<rparr>)\<rparr>)"

text \<open>
  Lines 140 to 151, ``Save result'': the backup, the check of the extension, the write
  of the image into the new grid. A failed write is printed and nothing else.
\<close>

definition saveResult :: "'w env \<Rightarrow> path \<Rightarrow> ref \<Rightarrow> 'w state \<Rightarrow> 'w control" where
  "saveResult env newGridDir game st =
     (case BackupGame env (world st) newGridDir (heap st game) of
        (w, g, err) \<Rightarrow>
          let st1 = emit (CallBackupGame newGridDir game err)
                      (st\<lparr>world := w, heap := (heap st)(game := g)\<rparr>)
          in (case err of
                Some e \<Rightarrow> errorAndExit e st1
              | None \<Rightarrow>
                  if ImageExt (heap st1 game) = [] then
                    errorAndExit txtFailedIdentify st1
                  else
                    let imagePath = Join [newGridDir,
                                      ID (heap st1 game) @ ImageExt (heap st1 game)]
                    in (case WriteFile env (world st1) imagePath
                               (OverlayImageBytes (heap st1 game)) of
                          (w2, err2) \<Rightarrow>
                            let st2 = emit (CallWriteFile imagePath
                                              (OverlayImageBytes (heap st1 game)) err2)
                                        (st1\<lparr>world := w2\<rparr>)
                            in Normal (case err2 of
                                         Some e \<Rightarrow>
                                           Printf (txtFailedWrite (Name (heap st2 game)) e) st2
                                       | None \<Rightarrow> st2))))"

text \<open>
  Lines 89 to 135: the first part of the body of the loop over the games, for the
  \<open>i\<close>-th of \<open>n\<close>: the progress line, the download, the overlay. It ends
  \<open>Normal\<close> when the game goes on to ``Save result''.
\<close>

definition beforeSave ::
  "'w env \<Rightarrow> overlays \<Rightarrow> path \<Rightarrow> nat \<Rightarrow> nat \<Rightarrow> ref \<Rightarrow> 'w state \<Rightarrow> 'w control" where
  "beforeSave env overlays newGridDir n i game st =
     (let name = (if Name (heap st game) \<noteq> [] then Name (heap st game)
                  else txtUnknownGame (ID (heap st game)));
          st0 = Printf (txtProcessing name i n) st
      in andThen (downloadIfMissing env newGridDir game st0)
           (\<lambda>s. Normal (applyOverlayStage env overlays game s)))"

text \<open>Lines 89 to 151: the whole body of the loop.\<close>

definition processGame ::
  "'w env \<Rightarrow> overlays \<Rightarrow> path \<Rightarrow> nat \<Rightarrow> nat \<Rightarrow> ref \<Rightarrow> 'w state \<Rightarrow> 'w control" where
  "processGame env overlays newGridDir n i game st =
     andThen (beforeSave env overlays newGridDir n i game st)
       (saveResult env newGridDir game)"

text \<open>
  Lines 87 to 152: the loop. \<open>i\<close> is the number of games already visited; \<open>continue\<close>
  and the end of the body both go to the next game, an exit ends the loop.
\<close>

fun processGames ::
  "'w env \<Rightarrow> overlays \<Rightarrow> path \<Rightarrow> nat \<Rightarrow> nat \<Rightarrow> ref list \<Rightarrow> 'w state \<Rightarrow> 'w control" where
  "processGames env overlays newGridDir n i [] st = Normal st"
| "processGames env overlays newGridDir n i (game # rest) st =
     (case processGame env overlays newGridDir n (i + 1) game st of
        Normal st' \<Rightarrow> processGames env overlays newGridDir n (i + 1) rest st'
      | Continue st' \<Rightarrow> processGames env overlays newGridDir n (i + 1) rest st'
      | Exited st' \<Rightarrow> Exited st'
      | Panicked st' \<Rightarrow> Panicked st')"

text \<open>Lines 71 to 74: the loop that loads what earlier runs left for each game.\<close>

fun loadExistingAll :: "'w env \<Rightarrow> path \<Rightarrow> ref list \<Rightarrow> 'w state \<Rightarrow> 'w state" where
  "loadExistingAll env gridDir [] st = st"
| "loadExistingAll env gridDir (game # rest) st =
     (let overridePath = Join [exeDir env, ''games'']
      in case LoadExisting env (world st) overridePath gridDir (heap st game) of
           (w, g) \<Rightarrow>
             loadExistingAll env gridDir rest
               (emit (CallLoadExisting overridePath gridDir game)
                  (st\<lparr>world := w, heap := (heap st)(game := g)\<rparr>)))"

text \<open>
  Line 68: the records \<open>GetGames\<close> returns are new objects; they are stored at the
  next unused addresses, in the order of the list.
\<close>

definition allocGames :: "Game list \<Rightarrow> 'w state \<Rightarrow> ref list \<times> 'w state" where
  "allocGames gs st =
     ([nextRef st ..< nextRef st + length gs],
      st\<lparr>heap := (\<lambda>r. if nextRef st \<le> r \<and> r < nextRef st + length gs
                      then gs ! (r - nextRef st) else heap st r),
         nextRef := nextRef st + length gs\<rparr>)"

text \<open>Lines 154 to 166: the old grid is removed, then the new one renamed into its place.\<close>

definition swapGrid :: "'w env \<Rightarrow> path \<Rightarrow> path \<Rightarrow> 'w state \<Rightarrow> 'w control" where
  "swapGrid env gridDir newGridDir st =
     (let st0 = Println txtRemovingOld st
      in case RemoveAll env (world st0) gridDir of
           (w, err) \<Rightarrow>
             let st1 = emit (CallRemoveAll gridDir err) (st0\<lparr>world := w\<rparr>)
             in (case err of
                   Some e \<Rightarrow> errorAndExit e (Println txtFailedRemove st1)
                 | None \<Rightarrow>
                     let st2 = Println txtMoving st1
                     in (case Rename env (world st2) newGridDir gridDir of
                           (w2, err2) \<Rightarrow>
                             let st3 = emit (CallRename newGridDir gridDir err2)
                                         (st2\<lparr>world := w2\<rparr>)
                             in (case err2 of
                                   Some e \<Rightarrow>
                                     errorAndExit e
                                       (Println txtFailedMove st3)
                                 | None \<Rightarrow> Normal st3))))"

text \<open>Lines 65 and 80: the live grid directory of a user and the staging directory.\<close>

definition gridDirOf :: "User \<Rightarrow> path" where
  "gridDirOf user = Join [Dir user, ''config'', ''grid'']"

definition newGridDirOf :: "User \<Rightarrow> path" where
  "newGridDirOf user = gridDirOf user @ '' new''"

text \<open>Lines 64 to 74: the games of the user, and what earlier runs left for them.\<close>

definition loadGames :: "'w env \<Rightarrow> User \<Rightarrow> 'w state \<Rightarrow> ref list \<times> 'w state" where
  "loadGames env user st =
     (let st0 = Println (txtLoadingGamesFor (UserName user)) st
      in case GetGames env (world st0) user of
           (w, gs) \<Rightarrow>
             (case allocGames gs (emit (CallGetGames (UserName user)) (st0\<lparr>world := w\<rparr>)) of
                (games, st1) \<Rightarrow>
                  (games,
                   loadExistingAll env (gridDirOf user) games
                     (Println txtLoadingExisting st1))))"

text \<open>Lines 64 to 166: the body of the loop over the users.\<close>

definition processUser :: "'w env \<Rightarrow> overlays \<Rightarrow> User \<Rightarrow> 'w state \<Rightarrow> 'w control" where
  "processUser env overlays user st =
     (case loadGames env user st of
        (games, st2) \<Rightarrow>
          let st3 = Println txtCreatingNewGrid st2
          in (case MkdirAll env (world st3) (Join [newGridDirOf user, ''originals'']) of
                (w4, err) \<Rightarrow>
                  let st4 = emit (CallMkdirAll (Join [newGridDirOf user, ''originals'']) err)
                              (st3\<lparr>world := w4\<rparr>)
                  in (case err of
                        Some e \<Rightarrow> errorAndExit e (Println txtFailedCreate st4)
                      | None \<Rightarrow>
                          andThen
                            (processGames env overlays (newGridDirOf user) (length games) 0
                               games st4)
                            (swapGrid env (gridDirOf user) (newGridDirOf user)))))"

text \<open>
  Lines 64 to 152: the body of the loop over the users up to the swap, that is
  \<open>processUser\<close> without its last step. It ends \<open>Normal\<close> when the loop over the games
  has ended and the swap is what comes next.
\<close>

definition fillStaging :: "'w env \<Rightarrow> overlays \<Rightarrow> User \<Rightarrow> 'w state \<Rightarrow> 'w control" where
  "fillStaging env overlays user st =
     (case loadGames env user st of
        (games, st2) \<Rightarrow>
          let st3 = Println txtCreatingNewGrid st2
          in (case MkdirAll env (world st3) (Join [newGridDirOf user, ''originals'']) of
                (w4, err) \<Rightarrow>
                  let st4 = emit (CallMkdirAll (Join [newGridDirOf user, ''originals'']) err)
                              (st3\<lparr>world := w4\<rparr>)
                  in (case err of
                        Some e \<Rightarrow> errorAndExit e (Println txtFailedCreate st4)
                      | None \<Rightarrow>
                          processGames env overlays (newGridDirOf user) (length games) 0
                            games st4)))"

fun processUsers :: "'w env \<Rightarrow> overlays \<Rightarrow> User list \<Rightarrow> 'w state \<Rightarrow> 'w control" where
  "processUsers env overlays [] st = Normal st"
| "processUsers env overlays (user # rest) st =
     andThen (processUser env overlays user st) (processUsers env overlays rest)"

text \<open>
  Lines 169 to 199: the summary. In the last loop \<open>errorMessages[i]\<close> is an indexing
  expression: the Go runtime panics when \<open>i\<close> is not below the length of the slice.
\<close>

fun printSearched :: "ref list \<Rightarrow> 'w state \<Rightarrow> 'w state" where
  "printSearched [] st = st"
| "printSearched (game # rest) st =
     printSearched rest
       (Printf (txtSearchedLine (Name (heap st game)) (ID (heap st game))) st)"

fun printNotFounds :: "ref list \<Rightarrow> 'w state \<Rightarrow> 'w state" where
  "printNotFounds [] st = st"
| "printNotFounds (game # rest) st =
     printNotFounds rest
       (Printf (txtNotFoundLine (Name (heap st game)) (ID (heap st game))) st)"

fun printFailed :: "nat \<Rightarrow> ref list \<Rightarrow> 'w state \<Rightarrow> 'w control" where
  "printFailed i [] st = Normal st"
| "printFailed i (game # rest) st =
     (if i < length (errorMessages st) then
        printFailed (i + 1) rest
          (Printf (txtFailedLine (Name (heap st game)) (ID (heap st game))
                     (errorMessages st ! i)) st)
      else Panicked st)"

definition summarySearched :: "'w state \<Rightarrow> 'w state" where
  "summarySearched st =
     (if length (searchedGames st) \<ge> 1 then
        Printf (nl @ nl)
          (printSearched (searchedGames st)
             (Printf (txtSearchedHeader (length (searchedGames st))) st))
      else st)"

definition summaryNotFounds :: "'w state \<Rightarrow> 'w state" where
  "summaryNotFounds st =
     (if length (notFounds st) \<ge> 1 then
        Printf (nl @ nl)
          (printNotFounds (notFounds st)
             (Printf (txtNotFoundHeader (length (notFounds st))) st))
      else st)"

definition summaryFailed :: "'w state \<Rightarrow> 'w control" where
  "summaryFailed st =
     (if length (failedGames st) \<ge> 1 then
        andThen
          (printFailed 0 (failedGames st)
             (Printf (txtFailedHeader (length (failedGames st))) st))
          (\<lambda>s. Normal (Printf (nl @ nl) s))
      else Normal st)"

definition printSummary :: "'w state \<Rightarrow> 'w control" where
  "printSummary st =
     andThen
       (summaryFailed
          (summaryNotFounds
             (summarySearched
                (Printf (txtTotals (nDownloaded st) (nOverlaysApplied st)) st))))
       (\<lambda>s. Normal (emit ReadLine (Println txtDone s)))"

text \<open>The state in which \<open>startApplication\<close> begins: empty lists, counters at zero.\<close>

definition noGame :: Game where
  "noGame = \<lparr>ID = [], Name = [], Category = [], CleanImageBytes = None,
             OverlayImageBytes = None, ImageExt = [], ImageSource = []\<rparr>"

definition initState :: "'w \<Rightarrow> 'w state" where
  "initState w = \<lparr>world = w, heap = (\<lambda>_. noGame), nextRef = 0, nOverlaysApplied = 0,
                  nDownloaded = 0, notFounds = [], searchedGames = [], failedGames = [],
                  errorMessages = [], trace = []\<rparr>"

text \<open>Lines 28 to 200.\<close>

definition startApplication :: "'w env \<Rightarrow> 'w \<Rightarrow> 'w control" where
  "startApplication env w0 =
     (let st0 = Println txtLoadingOverlays (initState w0);
          overlayDir = Join [exeDir env, ''overlays by category'']
      in case LoadOverlays env (world st0) overlayDir of
           (w1, Inl e) \<Rightarrow>
             errorAndExit e (emit (CallLoadOverlays overlayDir (Some e)) (st0\<lparr>world := w1\<rparr>))
         | (w1, Inr overlays) \<Rightarrow>
             let st1 = emit (CallLoadOverlays overlayDir None) (st0\<lparr>world := w1\<rparr>);
                 st2 = (if length overlays = 0 then
                          Println txtNoOverlays st1
                        else
                          Printf (txtLoaded (length overlays)) st1);
                 st3 = Println txtLookingForSteam st2
             in (case GetSteamInstallation env (world st3) of
                   (w4, Inl e) \<Rightarrow>
                     errorAndExit e
                       (emit (CallGetSteamInstallation (Some e)) (st3\<lparr>world := w4\<rparr>))
                 | (w4, Inr installationDir) \<Rightarrow>
                     let st4 = Println txtLoadingUsers
                                 (emit (CallGetSteamInstallation None) (st3\<lparr>world := w4\<rparr>))
                     in (case GetUsers env (world st4) installationDir of
                           (w5, Inl e) \<Rightarrow>
                             errorAndExit e
                               (emit (CallGetUsers installationDir (Some e))
                                  (st4\<lparr>world := w5\<rparr>))
                         | (w5, Inr users) \<Rightarrow>
                             let st5 = emit (CallGetUsers installationDir None)
                                         (st4\<lparr>world := w5\<rparr>)
                             in if length users = 0 then
                                  errorAndExit txtNoUsers st5
                                else
                                  andThen (processUsers env overlays users st5)
                                    printSummary)))"

section \<open>The functions of the package that are not in \<open>steamgrid.go\<close>\<close>

text \<open>
  Modelled from the spec: \<open>GetGames\<close> is not in \<open>steamgrid.go\<close>. Sections 1 and 3: the
  game source is an opaque collaborator that supplies records \<open>{ID, Name, Category}\<close>,
  and the \<open>Game\<close> records are created fresh from them; the other fields start absent
  or empty. \<open>source\<close> is that collaborator.
\<close>

definition GetGames_spec ::
  "('w \<Rightarrow> User \<Rightarrow> 'w \<times> (string \<times> string \<times> string) list) \<Rightarrow> 'w \<Rightarrow> User \<Rightarrow> 'w \<times> Game list" where
  "GetGames_spec source w user =
     (case source w user of
        (w', recs) \<Rightarrow>
          (w', map (\<lambda>(ident, name, category).
                      \<lparr>ID = ident, Name = name, Category = category,
                       CleanImageBytes = None, OverlayImageBytes = None,
                       ImageExt = [], ImageSource = []\<rparr>) recs))"

text \<open>
  Modelled from the spec: \<open>LoadExisting\<close> is not in \<open>steamgrid.go\<close>. Section 4.2: it
  mutates the game in place and never fails; if the search order finds a file,
  \<open>CleanImageBytes\<close> is set to its bytes, \<open>ImageExt\<close> to the extension found by content
  sniffing, and \<open>ImageSource\<close> to a local marker. Which file the search order selects
  in the directories, with its extension and marker, is the function \<open>found\<close>.
\<close>

definition LoadExisting_spec ::
  "('w \<Rightarrow> path \<Rightarrow> path \<Rightarrow> string \<Rightarrow> 'w \<times> (bytes \<times> string \<times> string) option)
   \<Rightarrow> 'w \<Rightarrow> path \<Rightarrow> path \<Rightarrow> Game \<Rightarrow> 'w \<times> Game" where
  "LoadExisting_spec found w overrideDir gridDir game =
     (case found w overrideDir gridDir (ID game) of
        (w', None) \<Rightarrow> (w', game)
      | (w', Some (content, ext, marker)) \<Rightarrow>
          (w', game\<lparr>CleanImageBytes := Some content, ImageExt := ext,
                     ImageSource := marker\<rparr>))"

text \<open>What the image provider answers: no image, an image and its extension, or a
  transport error.\<close>

datatype reply = Miss | Hit bytes string | Failure error

text \<open>
  Modelled from the spec: \<open>DownloadImage\<close> is not in \<open>steamgrid.go\<close>. Section 4.3: the
  catalog lookup by game ID first, on a miss the search by display name; a transport
  error is returned; on success \<open>CleanImageBytes\<close>, \<open>ImageExt\<close> and \<open>ImageSource\<close>
  (\<open>official\<close> or \<open>search\<close>) are set and \<open>fromSearch\<close> reports the path; if neither
  path yields an image, \<open>ImageSource\<close> stays empty and there is no error. \<open>catalog\<close>
  and \<open>search\<close> are the image provider.
\<close>

definition DownloadImage_spec ::
  "('w \<Rightarrow> string \<Rightarrow> 'w \<times> reply) \<Rightarrow> ('w \<Rightarrow> string \<Rightarrow> 'w \<times> reply)
   \<Rightarrow> 'w \<Rightarrow> path \<Rightarrow> Game \<Rightarrow> 'w \<times> Game \<times> bool \<times> error option" where
  "DownloadImage_spec catalog search w dir game =
     (case catalog w (ID game) of
        (w1, Failure e) \<Rightarrow> (w1, game, False, Some e)
      | (w1, Hit content ext) \<Rightarrow>
          (w1, game\<lparr>CleanImageBytes := Some content, ImageExt := ext,
                     ImageSource := ''official''\<rparr>, False, None)
      | (w1, Miss) \<Rightarrow>
          (case search w1 (Name game) of
             (w2, Failure e) \<Rightarrow> (w2, game, False, Some e)
           | (w2, Hit content ext) \<Rightarrow>
               (w2, game\<lparr>CleanImageBytes := Some content, ImageExt := ext,
                          ImageSource := ''search''\<rparr>, True, None)
           | (w2, Miss) \<Rightarrow> (w2, game, False, None)))"

text \<open>Section 4.1: category keys are compared without regard to case.\<close>

definition lowerChar :: "char \<Rightarrow> char" where
  "lowerChar c = (if 65 \<le> (of_char c :: nat) \<and> (of_char c :: nat) \<le> 90
                  then char_of ((of_char c :: nat) + 32) else c)"

definition overlayFor :: "overlays \<Rightarrow> string \<Rightarrow> bytes option" where
  "overlayFor overlays category =
     map_of (map (\<lambda>(k, v). (map lowerChar k, v)) overlays) (map lowerChar category)"

text \<open>
  Modelled from the spec: \<open>ApplyOverlay\<close> is not in \<open>steamgrid.go\<close>. Section 4.4: a
  no-op that returns nil and leaves \<open>OverlayImageBytes\<close> unset if the category has no
  entry in the overlays; otherwise the clean image and the overlay are decoded,
  composited and encoded again; a failure is returned as an error and does not mutate
  the game. Decoding, blending and encoding are the function \<open>composite\<close>.
\<close>

definition ApplyOverlay_spec ::
  "(bytes option \<Rightarrow> bytes \<Rightarrow> error + bytes)
   \<Rightarrow> 'w \<Rightarrow> Game \<Rightarrow> overlays \<Rightarrow> 'w \<times> Game \<times> error option" where
  "ApplyOverlay_spec composite w game overlays =
     (case overlayFor overlays (Category game) of
        None \<Rightarrow> (w, game, None)
      | Some overlay \<Rightarrow>
          (case composite (CleanImageBytes game) overlay of
             Inl e \<Rightarrow> (w, game, Some e)
           | Inr content \<Rightarrow> (w, game\<lparr>OverlayImageBytes := Some content\<rparr>, None)))"

text \<open>
  Modelled from the spec: \<open>BackupGame\<close> is not in \<open>steamgrid.go\<close>. Sections 4.5 and 6:
  it writes \<open>CleanImageBytes\<close> into the \<open>originals\<close> subfolder of the staging directory,
  keyed by game ID, as \<open>originals/<gameID><ext>\<close>. \<open>writeFile\<close> is the write of the
  environment.
\<close>

definition BackupGame_spec ::
  "('w \<Rightarrow> path \<Rightarrow> bytes option \<Rightarrow> 'w \<times> error option)
   \<Rightarrow> 'w \<Rightarrow> path \<Rightarrow> Game \<Rightarrow> 'w \<times> Game \<times> error option" where
  "BackupGame_spec writeFile w newDir game =
     (case writeFile w (Join [newDir, ''originals'', ID game @ ImageExt game])
             (CleanImageBytes game) of
        (w', err) \<Rightarrow> (w', game, err))"

text \<open>The opaque collaborators of the five functions above.\<close>

record 'w collaborators =
  source :: "'w \<Rightarrow> User \<Rightarrow> 'w \<times> (string \<times> string \<times> string) list"
  found :: "'w \<Rightarrow> path \<Rightarrow> path \<Rightarrow> string \<Rightarrow> 'w \<times> (bytes \<times> string \<times> string) option"
  catalog :: "'w \<Rightarrow> string \<Rightarrow> 'w \<times> reply"
  search :: "'w \<Rightarrow> string \<Rightarrow> 'w \<times> reply"
  composite :: "bytes option \<Rightarrow> bytes \<Rightarrow> error + bytes"

text \<open>An environment whose five functions are the ones modelled from the spec; the
  rest of it (start-up and file system) is that of \<open>base\<close>.\<close>

definition specEnv :: "'w env \<Rightarrow> 'w collaborators \<Rightarrow> 'w env" where
  "specEnv base co =
     base\<lparr>GetGames := GetGames_spec (source co),
          LoadExisting := LoadExisting_spec (found co),
          DownloadImage := DownloadImage_spec (catalog co) (search co),
          ApplyOverlay := ApplyOverlay_spec (composite co),
          BackupGame := BackupGame_spec (WriteFile base)\<rparr>"

section \<open>A file system\<close>

text \<open>
  The four functions of Go's standard library on a file system that maps a path to
  what is there. Whether a call fails is not decided here: \<open>fails\<close> says so, with the
  error. A call that succeeds has the effect its documentation gives; a call that
  fails changes nothing, except \<open>os.RemoveAll\<close>, which ``removes everything it can'':
  of what it was to remove, what \<open>kept\<close> names stays.
\<close>

datatype node = Directory | RegularFile bytes

type_synonym files = "path \<Rightarrow> node option"

datatype oscall =
    OsMkdirAll path
  | OsWriteFile path
  | OsRemoveAll path
  | OsRename path path

record faults =
  fails :: "oscall \<Rightarrow> error option"
  kept :: "path \<Rightarrow> bool"

text \<open>\<open>inside dir p\<close>: the path \<open>p\<close> is \<open>dir\<close> or lies below it.\<close>

definition inside :: "path \<Rightarrow> path \<Rightarrow> bool" where
  "inside dir p \<longleftrightarrow> p = dir \<or> take (Suc (length dir)) p = dir @ ''/''"

definition parentsOf :: "path \<Rightarrow> path list" where
  "parentsOf p = map (\<lambda>i. take i p) (filter (\<lambda>i. p ! i = CHR ''/'') [1..<length p])"

definition os_MkdirAll :: "faults \<Rightarrow> files \<Rightarrow> path \<Rightarrow> files \<times> error option" where
  "os_MkdirAll ft fs p =
     (case fails ft (OsMkdirAll p) of
        Some e \<Rightarrow> (fs, Some e)
      | None \<Rightarrow>
          ((\<lambda>q. if (q = p \<or> q \<in> set (parentsOf p)) \<and> fs q = None then Some Directory
                 else fs q), None))"

definition os_WriteFile ::
  "faults \<Rightarrow> files \<Rightarrow> path \<Rightarrow> bytes option \<Rightarrow> files \<times> error option" where
  "os_WriteFile ft fs p content =
     (case fails ft (OsWriteFile p) of
        Some e \<Rightarrow> (fs, Some e)
      | None \<Rightarrow>
          (fs(p := Some (RegularFile (case content of None \<Rightarrow> [] | Some b \<Rightarrow> b))), None))"

definition os_RemoveAll :: "faults \<Rightarrow> files \<Rightarrow> path \<Rightarrow> files \<times> error option" where
  "os_RemoveAll ft fs p =
     (case fails ft (OsRemoveAll p) of
        Some e \<Rightarrow> ((\<lambda>q. if inside p q \<and> \<not> kept ft q then None else fs q), Some e)
      | None \<Rightarrow> ((\<lambda>q. if inside p q then None else fs q), None))"

definition os_Rename :: "faults \<Rightarrow> files \<Rightarrow> path \<Rightarrow> path \<Rightarrow> files \<times> error option" where
  "os_Rename ft fs old new =
     (case fails ft (OsRename old new) of
        Some e \<Rightarrow> (fs, Some e)
      | None \<Rightarrow>
          ((\<lambda>q. if inside new q then fs (old @ drop (length new) q)
                 else if inside old q then None
                 else fs q), None))"

text \<open>An environment on this file system: the four functions are the ones above.\<close>

definition onFiles :: "faults \<Rightarrow> files env \<Rightarrow> files env" where
  "onFiles ft base =
     base\<lparr>MkdirAll := os_MkdirAll ft, WriteFile := os_WriteFile ft,
          RemoveAll := os_RemoveAll ft, Rename := os_Rename ft\<rparr>"

section \<open>Predicates on states and outcomes\<close>

text \<open>
  The two lists \<open>failedGames\<close> and \<open>errorMessages\<close> are parallel: the message of the
  \<open>i\<close>-th failed game is the \<open>i\<close>-th message.
\<close>

definition paired :: "'w state \<Rightarrow> bool" where
  "paired st \<longleftrightarrow> length (failedGames st) = length (errorMessages st)"

fun panicked :: "'w control \<Rightarrow> bool" where
  "panicked (Panicked st) = True"
| "panicked c = False"

text \<open>The events that are output or input on the terminal, and the steps that do
  nothing else: the later state is the earlier one with such events added.\<close>

fun isPrint :: "event \<Rightarrow> bool" where
  "isPrint (Stdout s) = True"
| "isPrint (Stderr s) = True"
| "isPrint ReadLine = True"
| "isPrint ev = False"

definition printsOnly :: "'w state \<Rightarrow> 'w state \<Rightarrow> bool" where
  "printsOnly st st' \<longleftrightarrow> (\<exists>tr. list_all isPrint tr \<and> st' = st\<lparr>trace := trace st @ tr\<rparr>)"

text \<open>A call of \<open>DownloadImage\<close> that returned an error; a trace without one; and an
  outcome in which such a call, if there is one, is followed by the three events of
  \<open>errorAndExit\<close> and by nothing else.\<close>

fun downloadFailed :: "event \<Rightarrow> bool" where
  "downloadFailed (CallDownloadImage d g src b (Some e)) = True"
| "downloadFailed ev = False"

definition noDownloadFailed :: "event list \<Rightarrow> bool" where
  "noDownloadFailed tr \<longleftrightarrow> list_all (\<lambda>ev. \<not> downloadFailed ev) tr"

definition abortsOnDownload :: "'w control \<Rightarrow> bool" where
  "abortsOnDownload c \<longleftrightarrow>
     (case c of
        Exited st \<Rightarrow>
          noDownloadFailed (trace st) \<or>
          (\<exists>pre d g src b e. trace st = pre @ [CallDownloadImage d g src b (Some e),
                                            Stdout (e @ nl), ReadLine, Exit 0]
                         \<and> noDownloadFailed pre)
      | _ \<Rightarrow> noDownloadFailed (trace (final c)))"

text \<open>The two calls of the directory swap.\<close>

fun isSwap :: "event \<Rightarrow> bool" where
  "isSwap (CallRemoveAll p r) = True"
| "isSwap (CallRename p q r) = True"
| "isSwap ev = False"

text \<open>
  On the file system: every regular file of \<open>w\<close> is a regular file of \<open>w'\<close> too (its
  content may have changed). And what ``Save result'' has done for the game \<open>g\<close> when
  the trace is \<open>tr\<close> and the state \<open>s\<close>: its backup into the directory \<open>d\<close> succeeded, and
  the next call was the write of line 148, of the bytes \<open>OverlayImageBytes\<close> of the
  game to the path of line 147, \<open>filepath.Join(d, game.ID + game.ImageExt)\<close>, with an
  extension that is not empty. If that write succeeded there is a regular file at
  this path in \<open>s\<close>; if it failed the next event is the line that line 150 prints.
\<close>

definition keepsFiles :: "files \<Rightarrow> files \<Rightarrow> bool" where
  "keepsFiles w w' \<longleftrightarrow>
     (\<forall>p b. w p = Some (RegularFile b) \<longrightarrow> (\<exists>b'. w' p = Some (RegularFile b')))"


text \<open>
  A step of the loop over the games that is about the game \<open>g\<close>, from \<open>st\<close> to \<open>st'\<close>,
  adding \<open>tr\<close> to the trace: no call of the swap is made, no regular file is lost, the
  records of the other games and the games already listed as not found stay.
\<close>

definition gameStep :: "ref \<Rightarrow> files state \<Rightarrow> files state \<Rightarrow> event list \<Rightarrow> bool" where
  "gameStep g st st' tr \<longleftrightarrow>
     trace st' = trace st @ tr
     \<and> list_all (\<lambda>ev. \<not> isSwap ev) tr
     \<and> keepsFiles (world st) (world st')
     \<and> (\<forall>h. h \<noteq> g \<longrightarrow> heap st' h = heap st h)
     \<and> set (notFounds st) \<subseteq> set (notFounds st')"

section \<open>Example runs\<close>

text \<open>
  A small installation: one user, one game without an image, no overlays; the
  download finds the image in the catalog, and every call succeeds and leaves the
  world as it is.
\<close>

definition demoUser :: User where
  "demoUser = \<lparr>UserName = ''bob'', Dir = ''u''\<rparr>"

definition demoGame :: Game where
  "demoGame = \<lparr>ID = ''42'', Name = ''Foo'', Category = ''Indie'', CleanImageBytes = None,
               OverlayImageBytes = None, ImageExt = [], ImageSource = []\<rparr>"

definition demoEnv :: "'w env" where
  "demoEnv =
     \<lparr>exeDir = ''x'',
      LoadOverlays = (\<lambda>w p. (w, Inr [])),
      GetSteamInstallation = (\<lambda>w. (w, Inr ''s'')),
      GetUsers = (\<lambda>w p. (w, Inr [demoUser])),
      GetGames = (\<lambda>w u. (w, [demoGame])),
      LoadExisting = (\<lambda>w p q g. (w, g)),
      DownloadImage = (\<lambda>w p g. (w, g\<lparr>CleanImageBytes := Some ''abc'', ImageExt := ''.jpg'',
                                        ImageSource := ''official''\<rparr>, False, None)),
      ApplyOverlay = (\<lambda>w g ov. (w, g, None)),
      BackupGame = (\<lambda>w p g. (w, g, None)),
      MkdirAll = (\<lambda>w p. (w, None)),
      WriteFile = (\<lambda>w p b. (w, None)),
      RemoveAll = (\<lambda>w p. (w, None)),
      Rename = (\<lambda>w p q. (w, None))\<rparr>"

text \<open>The same, but the download times out.\<close>

definition timeoutEnv :: "unit env" where
  "timeoutEnv = demoEnv\<lparr>DownloadImage := (\<lambda>w p g. (w, g, False, Some ''timeout''))\<rparr>"


definition writeFailEnv :: "unit env" where
  "writeFailEnv = demoEnv\<lparr>WriteFile := (\<lambda>w p b. (w, Some ''disk full''))\<rparr>"

definition unknownExtEnv :: "unit env" where
  "unknownExtEnv =
     demoEnv\<lparr>DownloadImage :=
       (\<lambda>w p g. (w, g\<lparr>CleanImageBytes := Some ''abc'', ImageExt := [],
                         ImageSource := ''official''\<rparr>, False, None))\<rparr>"

definition searchFailEnv :: "unit env" where
  "searchFailEnv =
     demoEnv\<lparr>DownloadImage :=
       (\<lambda>w p g. (w, g\<lparr>CleanImageBytes := Some ''abc'', ImageExt := ''.jpg'',
                         ImageSource := ''search''\<rparr>, True, None)),
             ApplyOverlay := (\<lambda>w g ov. (w, g, Some ''bad image''))\<rparr>"

text \<open>The image comes from the search, and the overlay stage has nothing to object.\<close>

definition searchEnv :: "unit env" where
  "searchEnv =
     demoEnv\<lparr>DownloadImage :=
       (\<lambda>w p g. (w, g\<lparr>CleanImageBytes := Some ''abc'', ImageExt := ''.jpg'',
                         ImageSource := ''search''\<rparr>, True, None))\<rparr>"

text \<open>The state of a run that has loaded the game of the example at address 0, and the
  game after its download.\<close>

definition demoState :: "unit state" where
  "demoState = (initState ())\<lparr>heap := (\<lambda>r. if r = 0 then demoGame else noGame),
                               nextRef := 1\<rparr>"

definition demoFound :: Game where
  "demoFound = \<lparr>ID = ''42'', Name = ''Foo'', Category = ''Indie'',
                CleanImageBytes = Some ''abc'', OverlayImageBytes = Some ''abc'',
                ImageExt = ''.jpg'', ImageSource = ''official''\<rparr>"

text \<open>The example on the file system: nothing fails; the games come from the game
  source, nothing is left from earlier runs, the catalog has the image.\<close>

definition noFaults :: faults where
  "noFaults = \<lparr>fails = (\<lambda>c. None), kept = (\<lambda>p. False)\<rparr>"

definition demoCo :: "'w collaborators" where
  "demoCo =
     \<lparr>source = (\<lambda>w u. (w, [(''42'', ''Foo'', ''Indie'')])),
      found = (\<lambda>w overrideDir gridDir ident. (w, None)),
      catalog = (\<lambda>w ident. (w, Hit ''abc'' ''.jpg'')),
      search = (\<lambda>w name. (w, Miss)),
      composite = (\<lambda>clean overlay. Inr overlay)\<rparr>"

definition emptyFiles :: files where
  "emptyFiles = (\<lambda>p. None)"

text \<open>The catalog has an image whose format is not known.\<close>

definition unknownFormatEnv :: "files env" where
  "unknownFormatEnv =
     specEnv (onFiles noFaults demoEnv) (demoCo\<lparr>catalog := (\<lambda>w ident. (w, Hit ''abc'' []))\<rparr>)"

text \<open>A grid left by an earlier run, and a file system on which every rename fails.\<close>

definition liveFiles :: files where
  "liveFiles =
     (\<lambda>p. if p = ''u/config/grid'' then Some Directory
          else if p = ''u/config/grid/42.jpg'' then Some (RegularFile ''old'')
          else None)"

definition renameFails :: faults where
  "renameFails =
     \<lparr>fails = (\<lambda>c. case c of OsRename old new \<Rightarrow> Some ''access denied'' | _ \<Rightarrow> None),
      kept = (\<lambda>p. False)\<rparr>"

definition renameFailEnv :: "files env" where
  "renameFailEnv = onFiles renameFails demoEnv"

text \<open>A file system on which the removal of a directory fails and leaves the directory
  itself; one on which every write of a file fails; one on which nothing fails.\<close>

definition removeFails :: faults where
  "removeFails =
     \<lparr>fails = (\<lambda>c. case c of OsRemoveAll p \<Rightarrow> Some ''directory in use'' | _ \<Rightarrow> None),
      kept = (\<lambda>p. p = ''u/config/grid'')\<rparr>"

definition removeFailEnv :: "files env" where
  "removeFailEnv = onFiles removeFails demoEnv"




section \<open>The summary lists and the trace\<close>

text \<open>
  Events about a game \<open>g\<close>: a call of \<open>DownloadImage\<close> for it; one that left a
  non-empty \<open>ImageSource\<close>; one that did so, reported \<open>fromSearch\<close> and no error; a call
  of \<open>ApplyOverlay\<close> that returned an error.
\<close>

fun downloadOf :: "ref \<Rightarrow> event \<Rightarrow> bool" where
  "downloadOf g (CallDownloadImage d h src b r) = (h = g)"
| "downloadOf g ev = False"

fun leftSource :: "ref \<Rightarrow> event \<Rightarrow> bool" where
  "leftSource g (CallDownloadImage d h src b r) = (h = g \<and> src \<noteq> [])"
| "leftSource g ev = False"

fun foundBySearch :: "ref \<Rightarrow> event \<Rightarrow> bool" where
  "foundBySearch g (CallDownloadImage d h src b r) = (h = g \<and> src \<noteq> [] \<and> b \<and> r = None)"
| "foundBySearch g ev = False"

fun overlayFailedOf :: "ref \<Rightarrow> event \<Rightarrow> bool" where
  "overlayFailedOf g (CallApplyOverlay h r) = (h = g \<and> r \<noteq> None)"
| "overlayFailedOf g ev = False"

text \<open>A game the run has not visited yet; and the agreement of the three summary lists
  with the trace that the run keeps.\<close>

definition unvisited :: "'w state \<Rightarrow> ref \<Rightarrow> bool" where
  "unvisited st g \<longleftrightarrow> g \<notin> set (notFounds st) \<and> \<not> list_ex (downloadOf g) (trace st)"

definition listsAgree :: "'w state \<Rightarrow> bool" where
  "listsAgree st \<longleftrightarrow>
     (\<forall>g. list_ex (foundBySearch g) (trace st) \<longrightarrow> g \<in> set (searchedGames st))
     \<and> (\<forall>g. g \<in> set (notFounds st) \<longrightarrow> \<not> list_ex (leftSource g) (trace st))
     \<and> (\<forall>g. g \<in> set (failedGames st) \<longleftrightarrow> list_ex (overlayFailedOf g) (trace st))"

text \<open>The games at the addresses not yet given out have not been visited.\<close>

definition restUnvisited :: "'w state \<Rightarrow> bool" where
  "restUnvisited st \<longleftrightarrow> (\<forall>g. nextRef st \<le> g \<longrightarrow> unvisited st g)"

section \<open>Basic facts\<close>


lemma emit_fields [simp]:
  "world (emit e st) = world st"
  "heap (emit e st) = heap st"
  "nextRef (emit e st) = nextRef st"
  "nOverlaysApplied (emit e st) = nOverlaysApplied st"
  "nDownloaded (emit e st) = nDownloaded st"
  "notFounds (emit e st) = notFounds st"
  "searchedGames (emit e st) = searchedGames st"
  "failedGames (emit e st) = failedGames st"
  "errorMessages (emit e st) = errorMessages st"
  "trace (emit e st) = trace st @ [e]"
  by (simp_all add: emit_def)

lemma Printf_fields [simp]:
  "world (Printf s st) = world st"
  "heap (Printf s st) = heap st"
  "nextRef (Printf s st) = nextRef st"
  "nOverlaysApplied (Printf s st) = nOverlaysApplied st"
  "nDownloaded (Printf s st) = nDownloaded st"
  "notFounds (Printf s st) = notFounds st"
  "searchedGames (Printf s st) = searchedGames st"
  "failedGames (Printf s st) = failedGames st"
  "errorMessages (Printf s st) = errorMessages st"
  "trace (Printf s st) = trace st @ [Stdout s]"
  by (simp_all add: Printf_def)

lemma Println_fields [simp]:
  "world (Println s st) = world st"
  "heap (Println s st) = heap st"
  "nextRef (Println s st) = nextRef st"
  "nOverlaysApplied (Println s st) = nOverlaysApplied st"
  "nDownloaded (Println s st) = nDownloaded st"
  "notFounds (Println s st) = notFounds st"
  "searchedGames (Println s st) = searchedGames st"
  "failedGames (Println s st) = failedGames st"
  "errorMessages (Println s st) = errorMessages st"
  "trace (Println s st) = trace st @ [Stdout (s @ nl)]"
  by (simp_all add: Println_def)

lemma andThen_simps [simp]:
  "andThen (Normal st) f = f st"
  "andThen (Continue st) f = Continue st"
  "andThen (Exited st) f = Exited st"
  "andThen (Panicked st) f = Panicked st"
  by (simp_all add: andThen_def)

lemma andThen_weak_cong: "c = c' \<Longrightarrow> andThen c f = andThen c' f"
  by simp

lemma final_errorAndExit [simp]:
  "final (errorAndExit e st) = emit (Exit 0) (emit ReadLine (Println e st))"
  by (simp add: errorAndExit_def)


lemma paired_emit [simp]: "paired (emit e st) = paired st"
  by (simp add: paired_def)

lemma paired_Printf [simp]: "paired (Printf s st) = paired st"
  by (simp add: Printf_def)

lemma paired_Println [simp]: "paired (Println s st) = paired st"
  by (simp add: Println_def)

lemma paired_initState [simp]: "paired (initState w)"
  by (simp add: paired_def initState_def)

lemma paired_world_update [simp]: "paired (st\<lparr>world := w\<rparr>) = paired st"
  by (simp add: paired_def)

lemma paired_errorAndExit [simp]: "paired (final (errorAndExit e st)) = paired st"
  by simp

lemma paired_andThen:
  assumes "paired (final c)" and "\<And>st. paired st \<Longrightarrow> paired (final (f st))"
  shows "paired (final (andThen c f))"
  using assms by (cases c) simp_all

lemma paired_downloadIfMissing:
  "paired st \<Longrightarrow> paired (final (downloadIfMissing env d g st))"
  by (auto simp: downloadIfMissing_def Let_def paired_def Printf_def errorAndExit_def Println_def
      split: prod.splits option.splits)

lemma paired_applyOverlayStage:
  "paired st \<Longrightarrow> paired (applyOverlayStage env ov g st)"
  by (auto simp: applyOverlayStage_def Let_def paired_def Printf_def
      split: prod.splits option.splits)

lemma paired_saveResult:
  "paired st \<Longrightarrow> paired (final (saveResult env d g st))"
  by (auto simp: saveResult_def Let_def paired_def Printf_def errorAndExit_def Println_def
      split: prod.splits option.splits)

lemma paired_beforeSave:
  "paired st \<Longrightarrow> paired (final (beforeSave env ov d n i g st))"
  unfolding beforeSave_def Let_def
  by (intro paired_andThen paired_downloadIfMissing) (simp_all add: paired_applyOverlayStage)

lemma paired_processGame:
  "paired st \<Longrightarrow> paired (final (processGame env ov d n i g st))"
  unfolding processGame_def
  by (intro paired_andThen paired_beforeSave paired_saveResult)

lemma paired_processGames:
  "paired st \<Longrightarrow> paired (final (processGames env ov d n i gs st))"
proof (induction gs arbitrary: i st)
  case Nil
  then show ?case by simp
next
  case (Cons g gs)
  from Cons.prems have "paired (final (processGame env ov d n (i + 1) g st))"
    by (rule paired_processGame)
  then show ?case
    by (cases "processGame env ov d n (i + 1) g st") (simp_all add: Cons.IH)
qed

lemma paired_loadExistingAll:
  "paired st \<Longrightarrow> paired (loadExistingAll env gd gs st)"
  by (induction gs arbitrary: st) (auto simp: Let_def paired_def split: prod.splits)

lemma paired_allocGames:
  "paired st \<Longrightarrow> paired (snd (allocGames gs st))"
  by (simp add: allocGames_def paired_def)

lemma paired_swapGrid:
  "paired st \<Longrightarrow> paired (final (swapGrid env gd nd st))"
  by (auto simp: swapGrid_def Let_def paired_def errorAndExit_def Println_def
      split: prod.splits option.splits)

lemma paired_allocGames':
  "allocGames gs st = (games, st1) \<Longrightarrow> paired st1 = paired st"
  by (auto simp: allocGames_def paired_def)

lemma paired_loadGames:
  "paired st \<Longrightarrow> paired (snd (loadGames env u st))"
  by (auto simp: loadGames_def Let_def paired_allocGames' split: prod.splits
      intro!: paired_loadExistingAll)

lemma paired_processUser:
  assumes "paired st"
  shows "paired (final (processUser env ov u st))"
proof -
  obtain games st2 where l: "loadGames env u st = (games, st2)"
    by (cases "loadGames env u st")
  with paired_loadGames [OF assms, of env u] have "paired st2" by simp
  then show ?thesis
    unfolding processUser_def Let_def l prod.case
    by (auto split: prod.splits option.splits simp: paired_def
        intro!: paired_andThen [unfolded paired_def] paired_processGames [unfolded paired_def]
                paired_swapGrid [unfolded paired_def])
qed

lemma paired_processUsers:
  "paired st \<Longrightarrow> paired (final (processUsers env ov us st))"
proof (induction us arbitrary: st)
  case Nil
  then show ?case by simp
next
  case (Cons u us)
  show ?case
    unfolding processUsers.simps
    by (rule paired_andThen) (simp_all add: Cons paired_processUser)
qed

lemma printsOnly_refl [simp]: "printsOnly st st"
  unfolding printsOnly_def by (rule exI [of _ "[]"]) simp

lemma printsOnly_trans: "printsOnly st st' \<Longrightarrow> printsOnly st' st'' \<Longrightarrow> printsOnly st st''"
  unfolding printsOnly_def
proof (elim exE conjE)
  fix tr tr'
  assume "list_all isPrint tr" "st' = st\<lparr>trace := trace st @ tr\<rparr>"
    "list_all isPrint tr'" "st'' = st'\<lparr>trace := trace st' @ tr'\<rparr>"
  then have "list_all isPrint (tr @ tr') \<and> st'' = st\<lparr>trace := trace st @ (tr @ tr')\<rparr>"
    by simp
  then show "\<exists>tr. list_all isPrint tr \<and> st'' = st\<lparr>trace := trace st @ tr\<rparr>" ..
qed

lemma printsOnly_emit: "isPrint ev \<Longrightarrow> printsOnly st (emit ev st)"
  unfolding printsOnly_def by (rule exI [of _ "[ev]"]) (simp add: emit_def)

lemma printsOnly_Printf [simp]: "printsOnly st (Printf s st)"
  by (simp add: Printf_def printsOnly_emit)

lemma printsOnly_Println [simp]: "printsOnly st (Println s st)"
  by (simp add: Println_def printsOnly_emit)

lemma printsOnly_then_emit: "printsOnly st st' \<Longrightarrow> isPrint ev \<Longrightarrow> printsOnly st (emit ev st')"
  by (erule printsOnly_trans) (rule printsOnly_emit)

lemma printsOnly_then_Printf: "printsOnly st st' \<Longrightarrow> printsOnly st (Printf s st')"
  by (erule printsOnly_trans) simp

lemma printsOnly_then_Println: "printsOnly st st' \<Longrightarrow> printsOnly st (Println s st')"
  by (erule printsOnly_trans) simp

lemma printsOnly_fields:
  assumes "printsOnly st st'"
  shows "world st' = world st" "heap st' = heap st" "nextRef st' = nextRef st"
    "nOverlaysApplied st' = nOverlaysApplied st" "nDownloaded st' = nDownloaded st"
    "notFounds st' = notFounds st" "searchedGames st' = searchedGames st"
    "failedGames st' = failedGames st" "errorMessages st' = errorMessages st"
  using assms by (auto simp: printsOnly_def)

lemma printsOnly_trace:
  "printsOnly st st' \<Longrightarrow> \<exists>tr. list_all isPrint tr \<and> trace st' = trace st @ tr"
  by (auto simp: printsOnly_def)

lemma printsOnly_printSearched: "printsOnly st (printSearched gs st)"
proof (induction gs arbitrary: st)
  case Nil
  show ?case by simp
next
  case (Cons g gs)
  show ?case
    unfolding printSearched.simps
    by (rule printsOnly_trans [OF _ Cons]) simp
qed

lemma printsOnly_printNotFounds: "printsOnly st (printNotFounds gs st)"
proof (induction gs arbitrary: st)
  case Nil
  show ?case by simp
next
  case (Cons g gs)
  show ?case
    unfolding printNotFounds.simps
    by (rule printsOnly_trans [OF _ Cons]) simp
qed

lemma printsOnly_summarySearched: "printsOnly st (summarySearched st)"
proof -
  have "printsOnly st (Printf (nl @ nl) (printSearched (searchedGames st)
          (Printf (txtSearchedHeader (length (searchedGames st))) st)))"
    by (rule printsOnly_then_Printf,
        rule printsOnly_trans [OF printsOnly_Printf printsOnly_printSearched])
  then show ?thesis by (simp add: summarySearched_def)
qed

lemma printsOnly_summaryNotFounds: "printsOnly st (summaryNotFounds st)"
proof -
  have "printsOnly st (Printf (nl @ nl) (printNotFounds (notFounds st)
          (Printf (txtNotFoundHeader (length (notFounds st))) st)))"
    by (rule printsOnly_then_Printf,
        rule printsOnly_trans [OF printsOnly_Printf printsOnly_printNotFounds])
  then show ?thesis by (simp add: summaryNotFounds_def)
qed

text \<open>The last loop of the summary prints, and ends normally or in a panic; it ends
  normally when the messages suffice.\<close>

lemma printFailed_outcome:
  "\<exists>st'. printsOnly st st' \<and>
     (printFailed i gs st = Normal st' \<or> printFailed i gs st = Panicked st')"
proof (induction gs arbitrary: i st)
  case Nil
  show ?case by auto
next
  case (Cons g gs)
  show ?case
  proof (cases "i < length (errorMessages st)")
    case True
    define st1 where "st1 = Printf (txtFailedLine (Name (heap st g)) (ID (heap st g))
                                     (errorMessages st ! i)) st"
    from Cons [where i = "i + 1" and st = st1] obtain st' where
      p: "printsOnly st1 st'"
      and o: "printFailed (i + 1) gs st1 = Normal st' \<or> printFailed (i + 1) gs st1 = Panicked st'"
      by blast
    have "printsOnly st st1" by (simp add: st1_def)
    from this p have "printsOnly st st'" by (rule printsOnly_trans)
    moreover from True have "printFailed i (g # gs) st = printFailed (i + 1) gs st1"
      by (simp add: st1_def)
    ultimately show ?thesis using o by auto
  next
    case False
    then show ?thesis by auto
  qed
qed

lemma printFailed_in_bounds:
  "i + length gs \<le> length (errorMessages st) \<Longrightarrow>
   \<exists>st'. printFailed i gs st = Normal st' \<and> printsOnly st st'"
proof (induction gs arbitrary: i st)
  case Nil
  then show ?case by simp
next
  case (Cons g gs)
  define st1 where "st1 = Printf (txtFailedLine (Name (heap st g)) (ID (heap st g))
                                   (errorMessages st ! i)) st"
  have p: "printsOnly st st1" by (simp add: st1_def)
  from Cons.prems have lt: "i < length (errorMessages st)" by simp
  from Cons.prems have "(i + 1) + length gs \<le> length (errorMessages st1)"
    by (simp add: st1_def)
  from Cons.IH [OF this] obtain st' where
    "printFailed (i + 1) gs st1 = Normal st'" "printsOnly st1 st'"
    by blast
  moreover from p this(2) have "printsOnly st st'" by (rule printsOnly_trans)
  moreover from lt have "printFailed i (g # gs) st = printFailed (i + 1) gs st1"
    by (simp add: st1_def)
  ultimately show ?case by simp
qed

lemma summaryFailed_outcome:
  "\<exists>st'. printsOnly st st' \<and> (summaryFailed st = Normal st' \<or> summaryFailed st = Panicked st')"
proof (cases "length (failedGames st) \<ge> 1")
  case True
  from printFailed_outcome [of "Printf (txtFailedHeader (length (failedGames st))) st" 0
      "failedGames st"]
  obtain st' where
    p: "printsOnly (Printf (txtFailedHeader (length (failedGames st))) st) st'"
    and o: "printFailed 0 (failedGames st) (Printf (txtFailedHeader (length (failedGames st))) st)
              = Normal st'
          \<or> printFailed 0 (failedGames st) (Printf (txtFailedHeader (length (failedGames st))) st)
              = Panicked st'"
    by blast
  from p have q: "printsOnly st st'"
    by (rule printsOnly_trans [OF printsOnly_Printf])
  from o show ?thesis
  proof
    assume "printFailed 0 (failedGames st) (Printf (txtFailedHeader (length (failedGames st))) st)
              = Normal st'"
    with True have "summaryFailed st = Normal (Printf (nl @ nl) st')"
      by (simp add: summaryFailed_def)
    moreover from q have "printsOnly st (Printf (nl @ nl) st')"
      by (rule printsOnly_then_Printf)
    ultimately show ?thesis by blast
  next
    assume "printFailed 0 (failedGames st) (Printf (txtFailedHeader (length (failedGames st))) st)
              = Panicked st'"
    with True have "summaryFailed st = Panicked st'"
      by (simp add: summaryFailed_def)
    with q show ?thesis by blast
  qed
next
  case False
  then have "summaryFailed st = Normal st" by (simp add: summaryFailed_def)
  then show ?thesis by (intro exI [of _ st]) simp
qed

lemma summaryFailed_paired:
  assumes "paired st"
  shows "\<exists>st'. summaryFailed st = Normal st' \<and> printsOnly st st'"
proof (cases "length (failedGames st) \<ge> 1")
  case True
  have "0 + length (failedGames st)
          \<le> length (errorMessages (Printf (txtFailedHeader (length (failedGames st))) st))"
    using assms by (simp add: paired_def)
  from printFailed_in_bounds [OF this] obtain st' where
    n: "printFailed 0 (failedGames st) (Printf (txtFailedHeader (length (failedGames st))) st)
       = Normal st'"
    and p: "printsOnly (Printf (txtFailedHeader (length (failedGames st))) st) st'"
    by blast
  from n True have "summaryFailed st = Normal (Printf (nl @ nl) st')"
    by (simp add: summaryFailed_def)
  moreover have "printsOnly st (Printf (nl @ nl) st')"
    by (rule printsOnly_then_Printf, rule printsOnly_trans [OF printsOnly_Printf p])
  ultimately show ?thesis by blast
next
  case False
  then show ?thesis by (simp add: summaryFailed_def)
qed

lemma printSummary_outcome:
  "\<exists>st'. printsOnly st st' \<and> (printSummary st = Normal st' \<or> printSummary st = Panicked st')"
proof -
  define st3 where "st3 = summaryNotFounds (summarySearched
     (Printf (txtTotals (nDownloaded st) (nOverlaysApplied st)) st))"
  have p3: "printsOnly st st3"
    unfolding st3_def
    by (rule printsOnly_trans [OF printsOnly_Printf],
        rule printsOnly_trans [OF printsOnly_summarySearched],
        rule printsOnly_summaryNotFounds)
  from summaryFailed_outcome [of st3] obtain st' where
    p: "printsOnly st3 st'" and o: "summaryFailed st3 = Normal st' \<or> summaryFailed st3 = Panicked st'"
    by blast
  from p3 p have q: "printsOnly st st'" by (rule printsOnly_trans)
  from o show ?thesis
  proof
    assume "summaryFailed st3 = Normal st'"
    then have "printSummary st = Normal (emit ReadLine (Println txtDone st'))"
      by (simp add: printSummary_def st3_def)
    moreover have "printsOnly st (emit ReadLine (Println txtDone st'))"
      by (rule printsOnly_then_emit, rule printsOnly_then_Println, rule q) simp
    ultimately show ?thesis by blast
  next
    assume "summaryFailed st3 = Panicked st'"
    then have "printSummary st = Panicked st'"
      by (simp add: printSummary_def st3_def)
    with q show ?thesis by blast
  qed
qed

lemma printSummary_paired:
  assumes "paired st"
  shows "\<exists>st'. printSummary st = Normal st' \<and> printsOnly st st'"
proof -
  define st3 where "st3 = summaryNotFounds (summarySearched
     (Printf (txtTotals (nDownloaded st) (nOverlaysApplied st)) st))"
  have p3: "printsOnly st st3"
    unfolding st3_def
    by (rule printsOnly_trans [OF printsOnly_Printf],
        rule printsOnly_trans [OF printsOnly_summarySearched],
        rule printsOnly_summaryNotFounds)
  with assms have "paired st3"
    using printsOnly_fields(8,9) [OF p3] by (simp add: paired_def)
  from summaryFailed_paired [OF this] obtain st' where
    n: "summaryFailed st3 = Normal st'" and p: "printsOnly st3 st'"
    by blast
  from n have "printSummary st = Normal (emit ReadLine (Println txtDone st'))"
    by (simp add: printSummary_def st3_def)
  moreover have "printsOnly st (emit ReadLine (Println txtDone st'))"
    by (rule printsOnly_then_emit, rule printsOnly_then_Println,
        rule printsOnly_trans [OF p3 p]) simp
  ultimately show ?thesis by blast
qed

lemma panicked_errorAndExit [simp]: "\<not> panicked (errorAndExit e st)"
  by (simp add: errorAndExit_def)

lemma panicked_andThen:
  assumes "\<not> panicked c" and "\<And>st. \<not> panicked (f st)"
  shows "\<not> panicked (andThen c f)"
  using assms by (cases c) simp_all

lemma panicked_downloadIfMissing: "\<not> panicked (downloadIfMissing env d g st)"
  by (auto simp: downloadIfMissing_def Let_def split: prod.splits option.splits)

lemma panicked_saveResult: "\<not> panicked (saveResult env d g st)"
  by (auto simp: saveResult_def Let_def split: prod.splits option.splits)

lemma panicked_beforeSave: "\<not> panicked (beforeSave env ov d n i g st)"
  unfolding beforeSave_def Let_def
  by (intro panicked_andThen panicked_downloadIfMissing) simp

lemma panicked_processGame: "\<not> panicked (processGame env ov d n i g st)"
  unfolding processGame_def
  by (intro panicked_andThen panicked_beforeSave panicked_saveResult)

lemma panicked_processGames: "\<not> panicked (processGames env ov d n i gs st)"
proof (induction gs arbitrary: i st)
  case Nil
  show ?case by simp
next
  case (Cons g gs)
  show ?case
    using panicked_processGame [of env ov d n "i + 1" g st]
    by (cases "processGame env ov d n (i + 1) g st") (simp_all add: Cons.IH)
qed

lemma panicked_swapGrid: "\<not> panicked (swapGrid env gd nd st)"
  by (auto simp: swapGrid_def Let_def split: prod.splits option.splits)

lemma panicked_processUser: "\<not> panicked (processUser env ov u st)"
  unfolding processUser_def Let_def
  by (simp add: panicked_andThen panicked_processGames panicked_swapGrid
      split: prod.splits option.splits)

lemma panicked_processUsers: "\<not> panicked (processUsers env ov us st)"
proof (induction us arbitrary: st)
  case Nil
  show ?case by simp
next
  case (Cons u us)
  show ?case
    unfolding processUsers.simps
    by (rule panicked_andThen) (simp_all add: Cons panicked_processUser)
qed

lemma summary_after_users:
  assumes "paired st"
  shows "paired (final (andThen (processUsers env ov us st) printSummary))
         \<and> \<not> panicked (andThen (processUsers env ov us st) printSummary)"
proof (cases "processUsers env ov us st")
  case (Normal st')
  with paired_processUsers [OF assms, of env ov us] have "paired st'" by simp
  from printSummary_paired [OF this] obtain st'' where
    "printSummary st' = Normal st''" "printsOnly st' st''"
    by blast
  with Normal \<open>paired st'\<close> printsOnly_fields(8,9) [of st' st'']
  show ?thesis by (simp add: paired_def)
next
  case (Continue st')
  with paired_processUsers [OF assms, of env ov us] show ?thesis by simp
next
  case (Exited st')
  with paired_processUsers [OF assms, of env ov us] show ?thesis by simp
next
  case (Panicked st')
  with panicked_processUsers [of env ov us st] show ?thesis by simp
qed

lemma startApplication_paired:
  "paired (final (startApplication env w)) \<and> \<not> panicked (startApplication env w)"
  unfolding startApplication_def Let_def
  by (auto split: prod.splits sum.splits simp: summary_after_users)

section \<open>A failed download\<close>

lemma noDownloadFailed_simps [simp]:
  "noDownloadFailed []"
  "noDownloadFailed (tr @ tr') \<longleftrightarrow> noDownloadFailed tr \<and> noDownloadFailed tr'"
  "noDownloadFailed (ev # tr) \<longleftrightarrow> \<not> downloadFailed ev \<and> noDownloadFailed tr"
  by (simp_all add: noDownloadFailed_def)

lemma abortsOnDownload_simps [simp]:
  "abortsOnDownload (Normal st) = noDownloadFailed (trace st)"
  "abortsOnDownload (Continue st) = noDownloadFailed (trace st)"
  "abortsOnDownload (Panicked st) = noDownloadFailed (trace st)"
  by (simp_all add: abortsOnDownload_def)

lemma abortsOnDownload_errorAndExit [simp]:
  "noDownloadFailed (trace st) \<Longrightarrow> abortsOnDownload (errorAndExit e st)"
  by (simp add: abortsOnDownload_def errorAndExit_def)

lemma abortsOnDownload_andThen:
  assumes "abortsOnDownload c"
    and "\<And>st. noDownloadFailed (trace st) \<Longrightarrow> abortsOnDownload (f st)"
  shows "abortsOnDownload (andThen c f)"
  using assms by (cases c) simp_all

lemma abortsOnDownload_downloadIfMissing:
  "noDownloadFailed (trace st) \<Longrightarrow> abortsOnDownload (downloadIfMissing env d g st)"
  by (auto simp: downloadIfMissing_def Let_def abortsOnDownload_def errorAndExit_def
      split: prod.splits option.splits)

lemma noDownloadFailed_applyOverlayStage:
  "noDownloadFailed (trace st) \<Longrightarrow> noDownloadFailed (trace (applyOverlayStage env ov g st))"
  by (auto simp: applyOverlayStage_def Let_def split: prod.splits option.splits)

lemma abortsOnDownload_saveResult:
  "noDownloadFailed (trace st) \<Longrightarrow> abortsOnDownload (saveResult env d g st)"
  by (auto simp: saveResult_def Let_def split: prod.splits option.splits)

lemma abortsOnDownload_beforeSave:
  "noDownloadFailed (trace st) \<Longrightarrow> abortsOnDownload (beforeSave env ov d n i g st)"
  unfolding beforeSave_def Let_def
  by (intro abortsOnDownload_andThen abortsOnDownload_downloadIfMissing)
     (simp_all add: noDownloadFailed_applyOverlayStage)

lemma abortsOnDownload_processGame:
  "noDownloadFailed (trace st) \<Longrightarrow> abortsOnDownload (processGame env ov d n i g st)"
  unfolding processGame_def
  by (intro abortsOnDownload_andThen abortsOnDownload_beforeSave abortsOnDownload_saveResult)

lemma abortsOnDownload_processGames:
  "noDownloadFailed (trace st) \<Longrightarrow> abortsOnDownload (processGames env ov d n i gs st)"
proof (induction gs arbitrary: i st)
  case Nil
  then show ?case by simp
next
  case (Cons g gs)
  from Cons.prems have "abortsOnDownload (processGame env ov d n (i + 1) g st)"
    by (rule abortsOnDownload_processGame)
  then show ?case
    by (cases "processGame env ov d n (i + 1) g st") (simp_all add: Cons.IH)
qed

lemma noDownloadFailed_loadExistingAll:
  "noDownloadFailed (trace st) \<Longrightarrow> noDownloadFailed (trace (loadExistingAll env gd gs st))"
  by (induction gs arbitrary: st) (auto simp: Let_def split: prod.splits)

lemma trace_allocGames [simp]: "trace (snd (allocGames gs st)) = trace st"
  by (simp add: allocGames_def)

lemma abortsOnDownload_swapGrid:
  "noDownloadFailed (trace st) \<Longrightarrow> abortsOnDownload (swapGrid env gd nd st)"
  by (auto simp: swapGrid_def Let_def split: prod.splits option.splits)

lemma trace_allocGames': "allocGames gs st = (games, st1) \<Longrightarrow> trace st1 = trace st"
  by (auto simp: allocGames_def)

lemma noDownloadFailed_loadGames:
  "noDownloadFailed (trace st) \<Longrightarrow> noDownloadFailed (trace (snd (loadGames env u st)))"
  by (auto simp: loadGames_def Let_def trace_allocGames' split: prod.splits
      intro!: noDownloadFailed_loadExistingAll)

lemma abortsOnDownload_processUser:
  assumes "noDownloadFailed (trace st)"
  shows "abortsOnDownload (processUser env ov u st)"
proof -
  obtain games st2 where l: "loadGames env u st = (games, st2)"
    by (cases "loadGames env u st")
  with noDownloadFailed_loadGames [OF assms, of env u] have "noDownloadFailed (trace st2)"
    by simp
  then show ?thesis
    unfolding processUser_def Let_def l prod.case
    by (auto split: prod.splits option.splits
        intro!: abortsOnDownload_andThen abortsOnDownload_processGames
                abortsOnDownload_swapGrid)
qed

lemma abortsOnDownload_processUsers:
  "noDownloadFailed (trace st) \<Longrightarrow> abortsOnDownload (processUsers env ov us st)"
proof (induction us arbitrary: st)
  case Nil
  then show ?case by simp
next
  case (Cons u us)
  show ?case
    unfolding processUsers.simps
    by (rule abortsOnDownload_andThen) (simp_all add: Cons abortsOnDownload_processUser)
qed

lemma noDownloadFailed_prints: "list_all isPrint tr \<Longrightarrow> noDownloadFailed tr"
  unfolding noDownloadFailed_def
  by (induction tr) (auto elim: isPrint.elims)

lemma abortsOnDownload_printSummary:
  assumes "noDownloadFailed (trace st)"
  shows "abortsOnDownload (printSummary st)"
proof -
  from printSummary_outcome [of st] obtain st' where
    p: "printsOnly st st'" and o: "printSummary st = Normal st' \<or> printSummary st = Panicked st'"
    by blast
  from printsOnly_trace [OF p] obtain tr where
    "list_all isPrint tr" "trace st' = trace st @ tr"
    by blast
  with assms have "noDownloadFailed (trace st')"
    by (simp add: noDownloadFailed_prints)
  with o show ?thesis by auto
qed

lemma abortsOnDownload_startApplication:
  "abortsOnDownload (startApplication env w)"
  unfolding startApplication_def Let_def
  by (auto split: prod.splits sum.splits simp: initState_def
      intro!: abortsOnDownload_andThen abortsOnDownload_processUsers abortsOnDownload_printSummary)


section \<open>The example runs, evaluated\<close>

lemmas run_defs =
  startApplication_def initState_def processUser_def fillStaging_def loadGames_def allocGames_def
  gridDirOf_def newGridDirOf_def Join_def Clean_def processGame_def beforeSave_def
  downloadIfMissing_def applyOverlayStage_def saveResult_def swapGrid_def
  printSummary_def summarySearched_def summaryNotFounds_def summaryFailed_def
  errorAndExit_def Println_def Printf_def emit_def Let_def

lemma timeoutEnv_trace:
  "trace (final (startApplication timeoutEnv ())) =
     [Stdout (txtLoadingOverlays @ nl), CallLoadOverlays ''x/overlays by category'' None,
      Stdout (txtNoOverlays @ nl), Stdout (txtLookingForSteam @ nl),
      CallGetSteamInstallation None, Stdout (txtLoadingUsers @ nl), CallGetUsers ''s'' None,
      Stdout (txtLoadingGamesFor ''bob'' @ nl), CallGetGames ''bob'',
      Stdout (txtLoadingExisting @ nl), CallLoadExisting ''x/games'' ''u/config/grid'' 0,
      Stdout (txtCreatingNewGrid @ nl), CallMkdirAll ''u/config/grid new/originals'' None,
      Stdout (txtProcessing ''Foo'' 1 1),
      CallDownloadImage ''u/config/grid new'' 0 [] False (Some ''timeout''),
      Stdout (''timeout'' @ nl), ReadLine, Exit 0]"
  by (simp add: run_defs timeoutEnv_def demoEnv_def demoUser_def demoGame_def
      cong: let_weak_cong prod.case_cong_weak andThen_weak_cong)

lemma writeFailEnv_run:
  "\<exists>h. startApplication writeFailEnv () =
     Normal \<lparr>world = (), heap = h, nextRef = 1, nOverlaysApplied = 0, nDownloaded = 1,
             notFounds = [], searchedGames = [], failedGames = [], errorMessages = [],
             trace =
               [Stdout (txtLoadingOverlays @ nl),
                CallLoadOverlays ''x/overlays by category'' None,
                Stdout (txtNoOverlays @ nl), Stdout (txtLookingForSteam @ nl),
                CallGetSteamInstallation None, Stdout (txtLoadingUsers @ nl),
                CallGetUsers ''s'' None,
                Stdout (txtLoadingGamesFor ''bob'' @ nl), CallGetGames ''bob'',
                Stdout (txtLoadingExisting @ nl),
                CallLoadExisting ''x/games'' ''u/config/grid'' 0,
                Stdout (txtCreatingNewGrid @ nl),
                CallMkdirAll ''u/config/grid new/originals'' None,
                Stdout (txtProcessing ''Foo'' 1 1),
                CallDownloadImage ''u/config/grid new'' 0 ''official'' False None,
                Stdout (txtFoundFrom ''official''),
                CallApplyOverlay 0 None,
                CallBackupGame ''u/config/grid new'' 0 None,
                CallWriteFile ''u/config/grid new/42.jpg'' (Some ''abc'') (Some ''disk full''),
                Stdout (txtFailedWrite ''Foo'' ''disk full''),
                Stdout (txtRemovingOld @ nl), CallRemoveAll ''u/config/grid'' None,
                Stdout (txtMoving @ nl),
                CallRename ''u/config/grid new'' ''u/config/grid'' None,
                Stdout (txtTotals 1 0), Stdout (txtDone @ nl), ReadLine]\<rparr>
     \<and> h 0 = demoFound"
  by (simp add: run_defs writeFailEnv_def demoEnv_def demoUser_def demoGame_def demoFound_def
      cong: let_weak_cong prod.case_cong_weak andThen_weak_cong)

lemma demoState_fields [simp]:
  "world demoState = ()" "heap demoState 0 = demoGame" "notFounds demoState = []"
  "searchedGames demoState = []" "failedGames demoState = []" "errorMessages demoState = []"
  "trace demoState = []"
  by (simp_all add: demoState_def initState_def)

lemma writeFailEnv_beforeSave:
  "\<exists>h. beforeSave writeFailEnv [] ''d'' 1 (0 + 1) 0 demoState =
     Normal \<lparr>world = (), heap = h, nextRef = 1, nOverlaysApplied = 0, nDownloaded = 1,
             notFounds = [], searchedGames = [], failedGames = [], errorMessages = [],
             trace = [Stdout (txtProcessing ''Foo'' 1 1),
                      CallDownloadImage ''d'' 0 ''official'' False None,
                      Stdout (txtFoundFrom ''official''), CallApplyOverlay 0 None]\<rparr>
     \<and> h 0 = demoFound"
  by (simp add: run_defs writeFailEnv_def demoEnv_def demoState_def demoGame_def demoFound_def
      cong: let_weak_cong prod.case_cong_weak andThen_weak_cong)

lemma unknownExtEnv_beforeSave:
  "\<exists>h. beforeSave unknownExtEnv [] ''d'' 1 (0 + 1) 0 demoState =
     Normal \<lparr>world = (), heap = h, nextRef = 1, nOverlaysApplied = 0, nDownloaded = 1,
             notFounds = [], searchedGames = [], failedGames = [], errorMessages = [],
             trace = [Stdout (txtProcessing ''Foo'' 1 1),
                      CallDownloadImage ''d'' 0 ''official'' False None,
                      Stdout (txtFoundFrom ''official''), CallApplyOverlay 0 None]\<rparr>
     \<and> h 0 = demoFound\<lparr>ImageExt := []\<rparr>"
  by (simp add: run_defs unknownExtEnv_def demoEnv_def demoState_def demoGame_def demoFound_def
      cong: let_weak_cong prod.case_cong_weak andThen_weak_cong)

lemma unknownFormatEnv_run:
  "\<exists>h fs. startApplication unknownFormatEnv emptyFiles =
     Exited \<lparr>world = fs, heap = h, nextRef = 1, nOverlaysApplied = 0, nDownloaded = 1,
             notFounds = [], searchedGames = [], failedGames = [], errorMessages = [],
             trace =
               [Stdout (txtLoadingOverlays @ nl),
                CallLoadOverlays ''x/overlays by category'' None,
                Stdout (txtNoOverlays @ nl), Stdout (txtLookingForSteam @ nl),
                CallGetSteamInstallation None, Stdout (txtLoadingUsers @ nl),
                CallGetUsers ''s'' None,
                Stdout (txtLoadingGamesFor ''bob'' @ nl), CallGetGames ''bob'',
                Stdout (txtLoadingExisting @ nl),
                CallLoadExisting ''x/games'' ''u/config/grid'' 0,
                Stdout (txtCreatingNewGrid @ nl),
                CallMkdirAll ''u/config/grid new/originals'' None,
                Stdout (txtProcessing ''Foo'' 1 1),
                CallDownloadImage ''u/config/grid new'' 0 ''official'' False None,
                Stdout (txtFoundFrom ''official''),
                CallApplyOverlay 0 None,
                CallBackupGame ''u/config/grid new'' 0 None,
                Stdout (txtFailedIdentify @ nl), ReadLine, Exit 0]\<rparr>
     \<and> fs ''u/config/grid new/originals/42'' = Some (RegularFile ''abc'')"
  by (simp add: run_defs unknownFormatEnv_def specEnv_def onFiles_def noFaults_def demoCo_def
      demoEnv_def demoUser_def emptyFiles_def GetGames_spec_def LoadExisting_spec_def
      DownloadImage_spec_def ApplyOverlay_spec_def BackupGame_spec_def overlayFor_def
      os_MkdirAll_def os_WriteFile_def os_RemoveAll_def os_Rename_def
      cong: let_weak_cong prod.case_cong_weak andThen_weak_cong)

lemma renameFailEnv_run:
  "\<exists>h fs. startApplication renameFailEnv liveFiles =
     Exited \<lparr>world = fs, heap = h, nextRef = 1, nOverlaysApplied = 0, nDownloaded = 1,
             notFounds = [], searchedGames = [], failedGames = [], errorMessages = [],
             trace =
               [Stdout (txtLoadingOverlays @ nl),
                CallLoadOverlays ''x/overlays by category'' None,
                Stdout (txtNoOverlays @ nl), Stdout (txtLookingForSteam @ nl),
                CallGetSteamInstallation None, Stdout (txtLoadingUsers @ nl),
                CallGetUsers ''s'' None,
                Stdout (txtLoadingGamesFor ''bob'' @ nl), CallGetGames ''bob'',
                Stdout (txtLoadingExisting @ nl),
                CallLoadExisting ''x/games'' ''u/config/grid'' 0,
                Stdout (txtCreatingNewGrid @ nl),
                CallMkdirAll ''u/config/grid new/originals'' None,
                Stdout (txtProcessing ''Foo'' 1 1),
                CallDownloadImage ''u/config/grid new'' 0 ''official'' False None,
                Stdout (txtFoundFrom ''official''),
                CallApplyOverlay 0 None,
                CallBackupGame ''u/config/grid new'' 0 None,
                CallWriteFile ''u/config/grid new/42.jpg'' (Some ''abc'') None,
                Stdout (txtRemovingOld @ nl), CallRemoveAll ''u/config/grid'' None,
                Stdout (txtMoving @ nl),
                CallRename ''u/config/grid new'' ''u/config/grid'' (Some ''access denied''),
                Stdout (txtFailedMove @ nl), Stdout (''access denied'' @ nl), ReadLine,
                Exit 0]\<rparr>
     \<and> fs ''u/config/grid'' = None \<and> fs ''u/config/grid/42.jpg'' = None
     \<and> fs ''u/config/grid new/42.jpg'' = Some (RegularFile ''abc'')"
  by (simp add: run_defs renameFailEnv_def onFiles_def renameFails_def demoEnv_def demoUser_def
      demoGame_def liveFiles_def inside_def
      os_MkdirAll_def os_WriteFile_def os_RemoveAll_def os_Rename_def
      cong: let_weak_cong prod.case_cong_weak andThen_weak_cong)



lemma renameFailEnv_fillStaging:
  "\<exists>h fs. fillStaging renameFailEnv [] demoUser (initState liveFiles) =
     Normal \<lparr>world = fs, heap = h, nextRef = 1, nOverlaysApplied = 0, nDownloaded = 1,
             notFounds = [], searchedGames = [], failedGames = [], errorMessages = [],
             trace =
               [Stdout (txtLoadingGamesFor ''bob'' @ nl), CallGetGames ''bob'',
                Stdout (txtLoadingExisting @ nl),
                CallLoadExisting ''x/games'' ''u/config/grid'' 0,
                Stdout (txtCreatingNewGrid @ nl),
                CallMkdirAll ''u/config/grid new/originals'' None,
                Stdout (txtProcessing ''Foo'' 1 1),
                CallDownloadImage ''u/config/grid new'' 0 ''official'' False None,
                Stdout (txtFoundFrom ''official''),
                CallApplyOverlay 0 None,
                CallBackupGame ''u/config/grid new'' 0 None,
                CallWriteFile ''u/config/grid new/42.jpg'' (Some ''abc'') None]\<rparr>
     \<and> fs ''u/config/grid new/42.jpg'' = Some (RegularFile ''abc'')
     \<and> fs ''u/config/grid/42.jpg'' = Some (RegularFile ''old'')"
  by (simp add: run_defs renameFailEnv_def onFiles_def renameFails_def demoEnv_def demoUser_def
      demoGame_def liveFiles_def inside_def
      os_MkdirAll_def os_WriteFile_def os_RemoveAll_def os_Rename_def
      cong: let_weak_cong prod.case_cong_weak andThen_weak_cong)

lemma removeFailEnv_fillStaging:
  "\<exists>h fs. fillStaging removeFailEnv [] demoUser (initState liveFiles) =
     Normal \<lparr>world = fs, heap = h, nextRef = 1, nOverlaysApplied = 0, nDownloaded = 1,
             notFounds = [], searchedGames = [], failedGames = [], errorMessages = [],
             trace =
               [Stdout (txtLoadingGamesFor ''bob'' @ nl), CallGetGames ''bob'',
                Stdout (txtLoadingExisting @ nl),
                CallLoadExisting ''x/games'' ''u/config/grid'' 0,
                Stdout (txtCreatingNewGrid @ nl),
                CallMkdirAll ''u/config/grid new/originals'' None,
                Stdout (txtProcessing ''Foo'' 1 1),
                CallDownloadImage ''u/config/grid new'' 0 ''official'' False None,
                Stdout (txtFoundFrom ''official''),
                CallApplyOverlay 0 None,
                CallBackupGame ''u/config/grid new'' 0 None,
                CallWriteFile ''u/config/grid new/42.jpg'' (Some ''abc'') None]\<rparr>
     \<and> fs ''u/config/grid new/42.jpg'' = Some (RegularFile ''abc'')"
  by (simp add: run_defs removeFailEnv_def onFiles_def removeFails_def demoEnv_def demoUser_def
      demoGame_def liveFiles_def inside_def
      os_MkdirAll_def os_WriteFile_def os_RemoveAll_def os_Rename_def
      cong: let_weak_cong prod.case_cong_weak andThen_weak_cong)







lemma gridDirOf_demoUser: "gridDirOf demoUser = ''u/config/grid''"
  by (simp add: gridDirOf_def Join_def Clean_def demoUser_def)

lemma searchEnv_run:
  "\<exists>h. startApplication searchEnv () =
     Normal \<lparr>world = (), heap = h, nextRef = 1, nOverlaysApplied = 0, nDownloaded = 1,
             notFounds = [], searchedGames = [0], failedGames = [], errorMessages = [],
             trace =
               [Stdout (txtLoadingOverlays @ nl),
                CallLoadOverlays ''x/overlays by category'' None,
                Stdout (txtNoOverlays @ nl), Stdout (txtLookingForSteam @ nl),
                CallGetSteamInstallation None, Stdout (txtLoadingUsers @ nl),
                CallGetUsers ''s'' None,
                Stdout (txtLoadingGamesFor ''bob'' @ nl), CallGetGames ''bob'',
                Stdout (txtLoadingExisting @ nl),
                CallLoadExisting ''x/games'' ''u/config/grid'' 0,
                Stdout (txtCreatingNewGrid @ nl),
                CallMkdirAll ''u/config/grid new/originals'' None,
                Stdout (txtProcessing ''Foo'' 1 1),
                CallDownloadImage ''u/config/grid new'' 0 ''search'' True None,
                Stdout (txtFoundFrom ''search''),
                CallApplyOverlay 0 None,
                CallBackupGame ''u/config/grid new'' 0 None,
                CallWriteFile ''u/config/grid new/42.jpg'' (Some ''abc'') None,
                Stdout (txtRemovingOld @ nl), CallRemoveAll ''u/config/grid'' None,
                Stdout (txtMoving @ nl),
                CallRename ''u/config/grid new'' ''u/config/grid'' None,
                Stdout (txtTotals 1 0),
                Stdout (txtSearchedHeader 1), Stdout (txtSearchedLine ''Foo'' ''42''),
                Stdout (nl @ nl),
                Stdout (txtDone @ nl), ReadLine]\<rparr>
     \<and> Name (h 0) = ''Foo'' \<and> ID (h 0) = ''42''"
  by (simp add: run_defs searchEnv_def demoEnv_def demoUser_def demoGame_def
      cong: let_weak_cong prod.case_cong_weak andThen_weak_cong)

lemma searchFailEnv_run:
  "\<exists>h. startApplication searchFailEnv () =
     Normal \<lparr>world = (), heap = h, nextRef = 1, nOverlaysApplied = 0, nDownloaded = 1,
             notFounds = [], searchedGames = [0], failedGames = [0],
             errorMessages = [''bad image''],
             trace =
               [Stdout (txtLoadingOverlays @ nl),
                CallLoadOverlays ''x/overlays by category'' None,
                Stdout (txtNoOverlays @ nl), Stdout (txtLookingForSteam @ nl),
                CallGetSteamInstallation None, Stdout (txtLoadingUsers @ nl),
                CallGetUsers ''s'' None,
                Stdout (txtLoadingGamesFor ''bob'' @ nl), CallGetGames ''bob'',
                Stdout (txtLoadingExisting @ nl),
                CallLoadExisting ''x/games'' ''u/config/grid'' 0,
                Stdout (txtCreatingNewGrid @ nl),
                CallMkdirAll ''u/config/grid new/originals'' None,
                Stdout (txtProcessing ''Foo'' 1 1),
                CallDownloadImage ''u/config/grid new'' 0 ''search'' True None,
                Stdout (txtFoundFrom ''search''),
                CallApplyOverlay 0 (Some ''bad image''),
                Stderr (''bad image'' @ nl),
                CallBackupGame ''u/config/grid new'' 0 None,
                CallWriteFile ''u/config/grid new/42.jpg'' (Some ''abc'') None,
                Stdout (txtRemovingOld @ nl), CallRemoveAll ''u/config/grid'' None,
                Stdout (txtMoving @ nl),
                CallRename ''u/config/grid new'' ''u/config/grid'' None,
                Stdout (txtTotals 1 0),
                Stdout (txtSearchedHeader 1), Stdout (txtSearchedLine ''Foo'' ''42''),
                Stdout (nl @ nl),
                Stdout (txtFailedHeader 1),
                Stdout (txtFailedLine ''Foo'' ''42'' ''bad image''),
                Stdout (nl @ nl),
                Stdout (txtDone @ nl), ReadLine]\<rparr>"
  by (simp add: run_defs searchFailEnv_def demoEnv_def demoUser_def demoGame_def
      cong: let_weak_cong prod.case_cong_weak andThen_weak_cong)

section \<open>One iteration of the loop over the games\<close>

lemma processGames_step:
  "processGame env ov d n (i + 1) g st = Normal st' \<or>
   processGame env ov d n (i + 1) g st = Continue st' \<Longrightarrow>
   processGames env ov d n i (g # rest) st = processGames env ov d n (i + 1) rest st'"
  by auto

lemma processGames_exit:
  "processGame env ov d n (i + 1) g st = Exited st' \<Longrightarrow>
   processGames env ov d n i (g # rest) st = Exited st'"
  by simp


lemma saveResult_no_extension:
  assumes "BackupGame env (world st) newGridDir (heap st game) = (w, g, None)"
    and "ImageExt g = []"
  shows "saveResult env newGridDir game st =
           errorAndExit txtFailedIdentify
             (emit (CallBackupGame newGridDir game None)
                (st\<lparr>world := w, heap := (heap st)(game := g)\<rparr>))"
  using assms by (simp add: saveResult_def Let_def)

lemma saveResult_write_failed:
  assumes "BackupGame env (world st) newGridDir (heap st game) = (w, g, None)"
    and "ImageExt g \<noteq> []"
    and "WriteFile env w (Join [newGridDir, ID g @ ImageExt g]) (OverlayImageBytes g)
           = (w2, Some e)"
  shows "saveResult env newGridDir game st =
           Normal (Printf (txtFailedWrite (Name g) e)
             (emit (CallWriteFile (Join [newGridDir, ID g @ ImageExt g])
                      (OverlayImageBytes g) (Some e))
                ((emit (CallBackupGame newGridDir game None)
                    (st\<lparr>world := w, heap := (heap st)(game := g)\<rparr>))
                 \<lparr>world := w2\<rparr>)))"
  using assms by (simp add: saveResult_def Let_def)

section \<open>The games of a user come before the swap\<close>

lemma processUser_fillStaging:
  "processUser env ov user st =
     andThen (fillStaging env ov user st) (swapGrid env (gridDirOf user) (newGridDirOf user))"
  by (simp add: processUser_def fillStaging_def Let_def errorAndExit_def
      split: prod.splits option.splits)

lemma keepsFiles_refl [simp]: "keepsFiles w w"
  by (simp add: keepsFiles_def)




lemma gameStep_refl [simp]: "gameStep g st st []"
  by (simp add: gameStep_def)















text \<open>The staging directory is not inside the live one.\<close>

lemma staging_outside_live:
  assumes "inside (gd @ '' new'') q"
  shows "\<not> inside gd q"
proof
  assume "inside gd q"
  then consider "q = gd" | "take (Suc (length gd)) q = gd @ ''/''"
    by (auto simp: inside_def)
  then show False
  proof cases
    case 1
    with assms show False by (auto simp: inside_def)
  next
    case 2
    from assms consider "q = gd @ '' new''" | "take (Suc (length (gd @ '' new''))) q = (gd @ '' new'') @ ''/''"
      by (auto simp: inside_def)
    then show False
    proof cases
      case 1
      with 2 show False by simp
    next
      case 2
      then have "take (Suc (length gd)) (take (Suc (length (gd @ '' new''))) q)
                   = take (Suc (length gd)) ((gd @ '' new'') @ ''/'')"
        by simp
      then have "take (Suc (length gd)) q = gd @ '' ''"
        by (simp add: min_def)
      with \<open>take (Suc (length gd)) q = gd @ ''/''\<close> show False by simp
    qed
  qed
qed

lemma os_RemoveAll_outside:
  "\<not> inside p q \<Longrightarrow> fst (os_RemoveAll ft fs p) q = fs q"
  by (simp add: os_RemoveAll_def split: option.splits)

lemma os_RemoveAll_done:
  "fails ft (OsRemoveAll p) = None \<Longrightarrow> inside p q \<Longrightarrow> fst (os_RemoveAll ft fs p) q = None"
  by (simp add: os_RemoveAll_def)

lemma os_RemoveAll_result: "snd (os_RemoveAll ft fs p) = fails ft (OsRemoveAll p)"
  by (simp add: os_RemoveAll_def split: option.splits)

lemma os_Rename_result: "snd (os_Rename ft fs old new) = fails ft (OsRename old new)"
  by (simp add: os_Rename_def split: option.splits)

lemma os_Rename_failed:
  "snd (os_Rename ft fs old new) = Some e \<Longrightarrow> fst (os_Rename ft fs old new) = fs"
  by (simp add: os_Rename_def split: option.splits)

section \<open>The summary lists agree with the trace\<close>

lemma leftSource_downloadOf: "leftSource g ev \<Longrightarrow> downloadOf g ev"
  by (cases ev) simp_all

lemma foundBySearch_leftSource: "foundBySearch g ev \<Longrightarrow> leftSource g ev"
  by (cases ev) simp_all

lemma isPrint_quiet:
  "isPrint ev \<Longrightarrow> \<not> downloadOf g ev \<and> \<not> leftSource g ev \<and> \<not> foundBySearch g ev
     \<and> \<not> overlayFailedOf g ev"
  by (cases ev) simp_all

lemma unvisited_not_leftSource:
  "unvisited st g \<Longrightarrow> \<not> list_ex (leftSource g) (trace st)"
  by (auto simp: unvisited_def list_ex_iff dest: leftSource_downloadOf)

text \<open>Steps that add to the trace nothing about downloads and overlays, and leave the
  lists alone, keep both properties.\<close>

lemma listsAgree_quiet:
  assumes "listsAgree st"
    and "trace st' = trace st @ tr"
    and "\<forall>ev\<in>set tr. \<forall>g. \<not> downloadOf g ev \<and> \<not> overlayFailedOf g ev"
    and "notFounds st' = notFounds st" "searchedGames st' = searchedGames st"
    and "failedGames st' = failedGames st"
  shows "listsAgree st'"
proof -
  have "\<not> leftSource g ev" "\<not> foundBySearch g ev" if "ev \<in> set tr" for g ev
    using that assms(3) leftSource_downloadOf foundBySearch_leftSource by blast+
  with assms show ?thesis
    by (auto simp: listsAgree_def list_ex_iff)
qed

lemma unvisited_quiet:
  assumes "unvisited st g"
    and "trace st' = trace st @ tr"
    and "\<forall>ev\<in>set tr. \<not> downloadOf g ev"
    and "notFounds st' = notFounds st"
  shows "unvisited st' g"
  using assms by (auto simp: unvisited_def list_ex_iff)

text \<open>The download of a game that has not been visited.\<close>

lemma downloadIfMissing_lists:
  assumes "listsAgree st" and "unvisited st g"
  shows "listsAgree (final (downloadIfMissing env d g st))"
  using assms unvisited_not_leftSource [OF assms(2)]
  by (auto simp: downloadIfMissing_def Let_def errorAndExit_def listsAgree_def unvisited_def
      list_ex_iff split: prod.splits option.splits)

lemma downloadIfMissing_others:
  assumes "unvisited st h" and "h \<noteq> g"
  shows "unvisited (final (downloadIfMissing env d g st)) h"
  using assms
  by (auto simp: downloadIfMissing_def Let_def errorAndExit_def unvisited_def list_ex_iff
      split: prod.splits option.splits)

lemma downloadIfMissing_nextRef [simp]:
  "nextRef (final (downloadIfMissing env d g st)) = nextRef st"
  by (auto simp: downloadIfMissing_def Let_def errorAndExit_def split: prod.splits option.splits)

lemma applyOverlayStage_lists:
  assumes "listsAgree st"
  shows "listsAgree (applyOverlayStage env ov g st)"
  using assms
  by (auto simp: applyOverlayStage_def Let_def listsAgree_def list_ex_iff
      split: prod.splits option.splits)

lemma applyOverlayStage_others:
  assumes "unvisited st h"
  shows "unvisited (applyOverlayStage env ov g st) h"
  using assms
  by (auto simp: applyOverlayStage_def Let_def unvisited_def list_ex_iff
      split: prod.splits option.splits)

lemma applyOverlayStage_nextRef [simp]:
  "nextRef (applyOverlayStage env ov g st) = nextRef st"
  by (auto simp: applyOverlayStage_def Let_def split: prod.splits option.splits)

lemma saveResult_lists:
  assumes "listsAgree st"
  shows "listsAgree (final (saveResult env d g st))"
  using assms
  by (auto simp: saveResult_def Let_def errorAndExit_def listsAgree_def list_ex_iff
      split: prod.splits option.splits)

lemma saveResult_others:
  assumes "unvisited st h"
  shows "unvisited (final (saveResult env d g st)) h"
  using assms
  by (auto simp: saveResult_def Let_def errorAndExit_def unvisited_def list_ex_iff
      split: prod.splits option.splits)

lemma saveResult_nextRef [simp]:
  "nextRef (final (saveResult env d g st)) = nextRef st"
  by (auto simp: saveResult_def Let_def errorAndExit_def split: prod.splits option.splits)

lemma final_andThen:
  assumes "P (final c)" and "\<And>s. c = Normal s \<Longrightarrow> P s \<Longrightarrow> P (final (f s))"
  shows "P (final (andThen c f))"
  using assms by (cases c) simp_all

text \<open>Both properties read the trace, the lists and the next address only.\<close>

lemma listsAgree_cong:
  assumes "trace st' = trace st" "notFounds st' = notFounds st"
    "searchedGames st' = searchedGames st" "failedGames st' = failedGames st"
  shows "listsAgree st' = listsAgree st"
  using assms by (simp add: listsAgree_def)

lemma unvisited_cong:
  assumes "trace st' = trace st" "notFounds st' = notFounds st"
  shows "unvisited st' h = unvisited st h"
  using assms by (simp add: unvisited_def)

lemma restUnvisited_cong:
  assumes "trace st' = trace st" "notFounds st' = notFounds st" "nextRef st' = nextRef st"
  shows "restUnvisited st' = restUnvisited st"
  using assms by (simp add: restUnvisited_def unvisited_def)

lemma listsAgree_world [simp]: "listsAgree (st\<lparr>world := w\<rparr>) = listsAgree st"
  by (rule listsAgree_cong) simp_all

lemma unvisited_world [simp]: "unvisited (st\<lparr>world := w\<rparr>) h = unvisited st h"
  by (rule unvisited_cong) simp_all

lemma restUnvisited_world [simp]: "restUnvisited (st\<lparr>world := w\<rparr>) = restUnvisited st"
  by (rule restUnvisited_cong) simp_all

lemma listsAgree_emit:
  "(\<And>g. \<not> downloadOf g ev \<and> \<not> overlayFailedOf g ev) \<Longrightarrow> listsAgree (emit ev st) = listsAgree st"
  using leftSource_downloadOf [of _ ev] foundBySearch_leftSource [of _ ev]
  by (auto simp: listsAgree_def list_ex_iff)

lemma unvisited_emit: "\<not> downloadOf h ev \<Longrightarrow> unvisited (emit ev st) h = unvisited st h"
  by (auto simp: unvisited_def list_ex_iff)

lemma restUnvisited_emit:
  "(\<And>g. \<not> downloadOf g ev) \<Longrightarrow> restUnvisited (emit ev st) = restUnvisited st"
  by (simp add: restUnvisited_def unvisited_emit)

lemma listsAgree_Printf [simp]: "listsAgree (Printf s st) = listsAgree st"
  by (simp add: Printf_def listsAgree_emit)

lemma listsAgree_Println [simp]: "listsAgree (Println s st) = listsAgree st"
  by (simp add: Println_def listsAgree_emit)

lemma unvisited_Printf [simp]: "unvisited (Printf s st) h = unvisited st h"
  by (simp add: Printf_def unvisited_emit)

lemma unvisited_Println [simp]: "unvisited (Println s st) h = unvisited st h"
  by (simp add: Println_def unvisited_emit)

lemma restUnvisited_Println [simp]: "restUnvisited (Println s st) = restUnvisited st"
  by (simp add: Println_def restUnvisited_emit)

lemma restUnvisited_Printf [simp]: "restUnvisited (Printf s st) = restUnvisited st"
  by (simp add: Printf_def restUnvisited_emit)

lemma listsAgree_errorAndExit: "listsAgree (final (errorAndExit e st)) = listsAgree st"
  by (simp add: errorAndExit_def listsAgree_emit)

lemma unvisited_errorAndExit: "unvisited (final (errorAndExit e st)) h = unvisited st h"
  by (simp add: errorAndExit_def unvisited_emit)

lemma restUnvisited_errorAndExit:
  "restUnvisited (final (errorAndExit e st)) = restUnvisited st"
  by (simp add: errorAndExit_def restUnvisited_emit)

lemma listsAgree_initState [simp]: "listsAgree (initState w)"
  by (simp add: listsAgree_def initState_def)

lemma restUnvisited_initState [simp]: "restUnvisited (initState w)"
  by (simp add: restUnvisited_def unvisited_def initState_def)

text \<open>One game: the lists still agree, the other games are as unvisited as before.\<close>

lemma processGame_lists:
  assumes "listsAgree st" and "unvisited st g"
  shows "listsAgree (final (processGame env ov d n i g st))
     \<and> (\<forall>h. h \<noteq> g \<and> unvisited st h \<longrightarrow> unvisited (final (processGame env ov d n i g st)) h)
     \<and> nextRef (final (processGame env ov d n i g st)) = nextRef st"
proof -
  define name where "name = (if Name (heap st g) \<noteq> [] then Name (heap st g)
                             else txtUnknownGame (ID (heap st g)))"
  define st0 where "st0 = Printf (txtProcessing name i n) st"
  define P where "P s \<longleftrightarrow> listsAgree s \<and> (\<forall>h. h \<noteq> g \<and> unvisited st h \<longrightarrow> unvisited s h)
                    \<and> nextRef s = nextRef st" for s :: "'a state"
  have p: "processGame env ov d n i g st =
             andThen (andThen (downloadIfMissing env d g st0)
                        (\<lambda>s. Normal (applyOverlayStage env ov g s)))
               (saveResult env d g)"
    by (simp add: processGame_def beforeSave_def Let_def name_def st0_def)
  have 0: "listsAgree st0" "unvisited st0 g" "nextRef st0 = nextRef st"
    "\<And>h. unvisited st h \<Longrightarrow> unvisited st0 h"
    using assms by (simp_all add: st0_def)
  have 1: "P (final (downloadIfMissing env d g st0))"
    unfolding P_def
  proof (intro conjI allI impI)
    show "listsAgree (final (downloadIfMissing env d g st0))"
      by (rule downloadIfMissing_lists [OF 0(1,2)])
    show "nextRef (final (downloadIfMissing env d g st0)) = nextRef st"
      by (simp add: 0(3))
    fix h assume "h \<noteq> g \<and> unvisited st h"
    then show "unvisited (final (downloadIfMissing env d g st0)) h"
      by (intro downloadIfMissing_others 0(4)) simp_all
  qed
  have 2: "P (applyOverlayStage env ov g s)" if "P s" for s
    using that unfolding P_def
    by (auto intro: applyOverlayStage_lists applyOverlayStage_others)
  have 3: "P (final (saveResult env d g s))" if "P s" for s
    using that unfolding P_def
    by (auto intro: saveResult_lists saveResult_others)
  have 4: "P (final (andThen (downloadIfMissing env d g st0)
                       (\<lambda>s. Normal (applyOverlayStage env ov g s))))"
    by (rule final_andThen [where P = P]) (simp_all add: 1 2)
  have "P (final (processGame env ov d n i g st))"
    unfolding p
    by (rule final_andThen [where P = P]) (simp_all add: 4 3)
  then show ?thesis by (simp add: P_def)
qed

lemma processGames_lists:
  assumes "listsAgree st" and "distinct gs" and "\<forall>g\<in>set gs. unvisited st g"
  shows "listsAgree (final (processGames env ov d n i gs st))
     \<and> (\<forall>h. h \<notin> set gs \<and> unvisited st h \<longrightarrow> unvisited (final (processGames env ov d n i gs st)) h)
     \<and> nextRef (final (processGames env ov d n i gs st)) = nextRef st"
  using assms
proof (induction gs arbitrary: i st)
  case Nil
  then show ?case by simp
next
  case (Cons g gs)
  let ?c = "processGame env ov d n (i + 1) g st"
  from Cons.prems have "listsAgree st" "unvisited st g" by simp_all
  from processGame_lists [OF this, of env ov d n "i + 1"]
  have a: "listsAgree (final ?c)"
    and o: "\<And>h. h \<noteq> g \<Longrightarrow> unvisited st h \<Longrightarrow> unvisited (final ?c) h"
    and r: "nextRef (final ?c) = nextRef st"
    by blast+
  from Cons.prems have ng: "g \<notin> set gs" and dg: "distinct gs"
    and ug: "\<And>h. h \<in> set gs \<Longrightarrow> unvisited st h"
    by simp_all
  have u: "\<forall>h\<in>set gs. unvisited (final ?c) h"
  proof
    fix h assume h: "h \<in> set gs"
    with ng have "h \<noteq> g" by blast
    with ug [OF h] show "unvisited (final ?c) h" by (rule o [rotated])
  qed
  from Cons.IH [OF a dg u, of "i + 1"]
  have ih1: "listsAgree (final (processGames env ov d n (i + 1) gs (final ?c)))"
    and ih2: "\<And>h. h \<notin> set gs \<Longrightarrow> unvisited (final ?c) h \<Longrightarrow>
             unvisited (final (processGames env ov d n (i + 1) gs (final ?c))) h"
    and ih3: "nextRef (final (processGames env ov d n (i + 1) gs (final ?c))) = nextRef (final ?c)"
    by blast+
  have go: ?case
    if p: "processGames env ov d n i (g # gs) st
             = processGames env ov d n (i + 1) gs (final ?c)"
  proof -
    have "unvisited (final (processGames env ov d n (i + 1) gs (final ?c))) h"
      if "h \<notin> set (g # gs)" "unvisited st h" for h
      using that by (intro ih2 o) simp_all
    with ih1 ih3 r show ?thesis unfolding p by simp
  qed
  show ?case
  proof (cases ?c)
    case (Normal s1)
    then show ?thesis by (intro go) simp
  next
    case (Continue s1)
    then show ?thesis by (intro go) simp
  next
    case (Exited s1)
    with a o r show ?thesis by auto
  next
    case (Panicked s1)
    with a o r show ?thesis by auto
  qed
qed

text \<open>The games of a user get the next addresses; loading them visits none.\<close>

lemma loadExistingAll_lists:
  "trace (loadExistingAll env gd gs st) = trace st @ map (CallLoadExisting (Join [exeDir env, ''games'']) gd) gs
   \<and> notFounds (loadExistingAll env gd gs st) = notFounds st
   \<and> searchedGames (loadExistingAll env gd gs st) = searchedGames st
   \<and> failedGames (loadExistingAll env gd gs st) = failedGames st
   \<and> nextRef (loadExistingAll env gd gs st) = nextRef st"
proof (induction gs arbitrary: st)
  case Nil
  show ?case by simp
next
  case (Cons g gs)
  obtain w g' where l: "LoadExisting env (world st) (Join [exeDir env, ''games'']) gd (heap st g)
                          = (w, g')"
    by (cases "LoadExisting env (world st) (Join [exeDir env, ''games'']) gd (heap st g)")
  define s1 where "s1 = emit (CallLoadExisting (Join [exeDir env, ''games'']) gd g)
                          (st\<lparr>world := w, heap := (heap st)(g := g')\<rparr>)"
  from Cons [of s1] show ?case
    by (simp add: Let_def l s1_def)
qed

lemma loadGames_lists:
  assumes "loadGames env u st = (games, st2)" and "listsAgree st" and "restUnvisited st"
  shows "listsAgree st2 \<and> restUnvisited st2 \<and> distinct games
     \<and> (\<forall>g\<in>set games. unvisited st2 g) \<and> (\<forall>g\<in>set games. g < nextRef st2)"
proof -
  obtain w gs where g: "GetGames env (world st) u = (w, gs)"
    by (cases "GetGames env (world st) u")
  let ?pre = "[Stdout (txtLoadingGamesFor (UserName u) @ nl), CallGetGames (UserName u),
               Stdout (txtLoadingExisting @ nl)]"
  let ?load = "map (CallLoadExisting (Join [exeDir env, ''games'']) (gridDirOf u)) games"
  from assms(1) have games: "games = [nextRef st ..< nextRef st + length gs]"
    by (auto simp: loadGames_def Let_def g allocGames_def)
  from assms(1) loadExistingAll_lists [of env "gridDirOf u" games]
  have t: "trace st2 = trace st @ ?pre @ ?load"
    and f: "notFounds st2 = notFounds st" "searchedGames st2 = searchedGames st"
      "failedGames st2 = failedGames st"
    and n: "nextRef st2 = nextRef st + length gs"
    by (auto simp: loadGames_def Let_def g allocGames_def)
  have q: "\<forall>ev\<in>set (?pre @ ?load). \<forall>h. \<not> downloadOf h ev \<and> \<not> overlayFailedOf h ev"
    by auto
  have a: "listsAgree st2"
    by (rule listsAgree_quiet [OF assms(2) t q f])
  have u: "unvisited st2 h" if "unvisited st h" for h
    by (rule unvisited_quiet [OF that t _ f(1)]) (use q in blast)
  from assms(3) u have "restUnvisited st2" "\<forall>g\<in>set games. unvisited st2 g"
    by (auto simp: restUnvisited_def n games)
  with a show ?thesis by (auto simp: games n)
qed

lemma swapGrid_lists:
  "listsAgree (final (swapGrid env gd nd st)) = listsAgree st
   \<and> (\<forall>h. unvisited (final (swapGrid env gd nd st)) h = unvisited st h)
   \<and> nextRef (final (swapGrid env gd nd st)) = nextRef st"
  by (simp add: swapGrid_def Let_def listsAgree_emit unvisited_emit
      split: prod.splits option.splits)

lemma processUser_lists:
  assumes "listsAgree st" and "restUnvisited st"
  shows "listsAgree (final (processUser env ov u st))
     \<and> restUnvisited (final (processUser env ov u st))"
proof -
  obtain games st2 where l: "loadGames env u st = (games, st2)"
    by (cases "loadGames env u st")
  from loadGames_lists [OF l assms] have
    a2: "listsAgree st2" and r2: "restUnvisited st2" and dg: "distinct games"
    and ug: "\<forall>g\<in>set games. unvisited st2 g" and lg: "\<forall>g\<in>set games. g < nextRef st2"
    by blast+
  obtain w4 err where mk: "MkdirAll env (world st2) (Join [newGridDirOf u, ''originals''])
                             = (w4, err)"
    by (cases "MkdirAll env (world st2) (Join [newGridDirOf u, ''originals''])")
  define st4 where "st4 = emit (CallMkdirAll (Join [newGridDirOf u, ''originals'']) err)
                            ((Println txtCreatingNewGrid st2)\<lparr>world := w4\<rparr>)"
  have s4: "listsAgree st4 = listsAgree st2" "\<And>h. unvisited st4 h = unvisited st2 h"
    "nextRef st4 = nextRef st2" "restUnvisited st4 = restUnvisited st2"
    by (simp_all add: st4_def listsAgree_emit unvisited_emit restUnvisited_emit)
  have pu: "processUser env ov u st =
              (case err of
                 Some e \<Rightarrow> errorAndExit e (Println txtFailedCreate st4)
               | None \<Rightarrow> andThen (processGames env ov (newGridDirOf u) (length games) 0 games st4)
                           (swapGrid env (gridDirOf u) (newGridDirOf u)))"
    by (cases err) (simp_all add: processUser_def l Let_def mk st4_def)
  define P where "P s \<longleftrightarrow> listsAgree s \<and> restUnvisited s" for s :: "'a state"
  show ?thesis
  proof (cases err)
    case (Some e)
    with pu a2 r2 s4 show ?thesis by (simp add: listsAgree_emit restUnvisited_emit)
  next
    case None
    let ?c = "processGames env ov (newGridDirOf u) (length games) 0 games st4"
    from processGames_lists [of st4 games env ov "newGridDirOf u" "length games" 0]
      a2 dg ug s4
    have a: "listsAgree (final ?c)"
      and o: "\<And>h. h \<notin> set games \<Longrightarrow> unvisited st4 h \<Longrightarrow> unvisited (final ?c) h"
      and r: "nextRef (final ?c) = nextRef st4"
      by auto
    have "restUnvisited (final ?c)"
      unfolding restUnvisited_def
    proof (intro allI impI)
      fix h assume "nextRef (final ?c) \<le> h"
      with r s4 lg have "h \<notin> set games" "nextRef st2 \<le> h" by auto
      with r2 s4 o show "unvisited (final ?c) h" by (simp add: restUnvisited_def)
    qed
    with a have 1: "P (final ?c)" by (simp add: P_def)
    have 2: "P (final (swapGrid env (gridDirOf u) (newGridDirOf u) s))" if "P s" for s
      using that swapGrid_lists [of env "gridDirOf u" "newGridDirOf u" s]
      by (simp add: P_def restUnvisited_def)
    have "P (final (processUser env ov u st))"
      unfolding pu None option.case
      by (rule final_andThen [where P = P]) (simp_all add: 1 2)
    then show ?thesis by (simp add: P_def)
  qed
qed

lemma processUsers_lists:
  assumes "listsAgree st" and "restUnvisited st"
  shows "listsAgree (final (processUsers env ov us st))
     \<and> restUnvisited (final (processUsers env ov us st))"
  using assms
proof (induction us arbitrary: st)
  case Nil
  then show ?case by simp
next
  case (Cons u us)
  define P where "P s \<longleftrightarrow> listsAgree s \<and> restUnvisited s" for s :: "'a state"
  have 1: "P (final (processUser env ov u st))"
    using processUser_lists [OF Cons.prems, of env ov u] by (simp add: P_def)
  have 2: "P (final (processUsers env ov us s))" if "P s" for s
    using that Cons.IH [of s] by (simp add: P_def)
  have "P (final (andThen (processUser env ov u st) (processUsers env ov us)))"
    by (rule final_andThen [where P = P]) (simp_all add: 1 2)
  then show ?case by (simp add: P_def)
qed

lemma listsAgree_printsOnly:
  assumes "printsOnly st st'"
  shows "listsAgree st' = listsAgree st"
proof -
  from assms obtain tr where p: "list_all isPrint tr" and s: "st' = st\<lparr>trace := trace st @ tr\<rparr>"
    by (auto simp: printsOnly_def)
  from p have "\<not> leftSource g ev \<and> \<not> foundBySearch g ev \<and> \<not> overlayFailedOf g ev"
    if "ev \<in> set tr" for g ev
    using that isPrint_quiet [of ev g] by (simp add: list_all_iff)
  then show ?thesis
    by (auto simp: s listsAgree_def list_ex_iff)
qed

lemma printSummary_lists:
  assumes "listsAgree st"
  shows "listsAgree (final (printSummary st))"
proof -
  from printSummary_outcome [of st] obtain st' where
    "printsOnly st st'" "printSummary st = Normal st' \<or> printSummary st = Panicked st'"
    by blast
  with assms listsAgree_printsOnly [of st st'] show ?thesis by auto
qed

lemma summary_lists:
  assumes "listsAgree st" and "restUnvisited st"
  shows "listsAgree (final (andThen (processUsers env ov us st) printSummary))"
proof (rule final_andThen [where P = listsAgree])
  show "listsAgree (final (processUsers env ov us st))"
    using processUsers_lists [OF assms] by simp
  show "listsAgree (final (printSummary s))" if "listsAgree s" for s
    using that by (rule printSummary_lists)
qed

lemma startApplication_lists: "listsAgree (final (startApplication env w))"
  unfolding startApplication_def Let_def
  by (simp split: prod.splits sum.splits
      add: summary_lists listsAgree_emit restUnvisited_emit)

text \<open>The summary of a run that comes to its end has a line for every game in the list
  of the games found by the search.\<close>

lemma printSearched_lines:
  "heap (printSearched gs st) = heap st
   \<and> set (trace st) \<subseteq> set (trace (printSearched gs st))
   \<and> (\<forall>g\<in>set gs. Stdout (txtSearchedLine (Name (heap st g)) (ID (heap st g)))
                     \<in> set (trace (printSearched gs st)))"
proof (induction gs arbitrary: st)
  case Nil
  show ?case by simp
next
  case (Cons g gs)
  let ?s = "Printf (txtSearchedLine (Name (heap st g)) (ID (heap st g))) st"
  from Cons [of ?s] show ?case
    by auto
qed

lemma summarySearched_lines:
  "\<forall>g\<in>set (searchedGames st).
      Stdout (txtSearchedLine (Name (heap st g)) (ID (heap st g)))
        \<in> set (trace (summarySearched st))"
proof (cases "length (searchedGames st) \<ge> 1")
  case True
  let ?s = "Printf (txtSearchedHeader (length (searchedGames st))) st"
  from printSearched_lines [of "searchedGames st" ?s] True show ?thesis
    by (simp add: summarySearched_def)
next
  case False
  then have "searchedGames st = []" by (cases "searchedGames st") simp_all
  then show ?thesis by simp
qed

lemma printSummary_lines:
  assumes "printSummary st = Normal st'" and "g \<in> set (searchedGames st)"
  shows "Stdout (txtSearchedLine (Name (heap st' g)) (ID (heap st' g))) \<in> set (trace st')
     \<and> searchedGames st' = searchedGames st"
proof -
  define st0 where "st0 = Printf (txtTotals (nDownloaded st) (nOverlaysApplied st)) st"
  define st1 where "st1 = summarySearched st0"
  define st2 where "st2 = summaryNotFounds st1"
  have f0: "heap st0 = heap st" "searchedGames st0 = searchedGames st"
    by (simp_all add: st0_def)
  from summarySearched_lines [of st0] assms(2) f0
  have l1: "Stdout (txtSearchedLine (Name (heap st g)) (ID (heap st g))) \<in> set (trace st1)"
    by (simp add: st1_def)
  have p1: "printsOnly st0 st1"
    unfolding st1_def by (rule printsOnly_summarySearched)
  have p2: "printsOnly st1 st2"
    unfolding st2_def by (rule printsOnly_summaryNotFounds)
  from summaryFailed_outcome [of st2] obtain st3 where
    p3: "printsOnly st2 st3"
    and o: "summaryFailed st2 = Normal st3 \<or> summaryFailed st2 = Panicked st3"
    by blast
  have ps: "printSummary st =
              andThen (summaryFailed st2) (\<lambda>s. Normal (emit ReadLine (Println txtDone s)))"
    by (simp add: printSummary_def st2_def st1_def st0_def)
  from o assms(1) have st': "st' = emit ReadLine (Println txtDone st3)"
    by (auto simp: ps)
  from printsOnly_trans [OF p2 p3] have p13: "printsOnly st1 st3" .
  from printsOnly_trace [OF p13] obtain tr where t: "trace st3 = trace st1 @ tr"
    by blast
  from printsOnly_fields(2,7) [OF printsOnly_trans [OF p1 p13]] f0
  have f3: "heap st3 = heap st" "searchedGames st3 = searchedGames st"
    by simp_all
  from l1 t f3 show ?thesis
    by (simp add: st')
qed

lemma summary_lines:
  assumes "andThen (processUsers env ov us st0) printSummary = Normal st"
    and "g \<in> set (searchedGames st)"
  shows "Stdout (txtSearchedLine (Name (heap st g)) (ID (heap st g))) \<in> set (trace st)"
proof (cases "processUsers env ov us st0")
  case (Normal s1)
  with assms(1) have p: "printSummary s1 = Normal st" by simp
  from printsOnly_fields(7) [of s1 st] printSummary_outcome [of s1] p
  have "searchedGames st = searchedGames s1" by auto
  with printSummary_lines [OF p, of g] assms(2) show ?thesis by simp
next
  case (Continue s1)
  with assms(1) show ?thesis by simp
next
  case (Exited s1)
  with assms(1) show ?thesis by simp
next
  case (Panicked s1)
  with assms(1) show ?thesis by simp
qed

lemma startApplication_lines:
  assumes "startApplication env w = Normal st" and "g \<in> set (searchedGames st)"
  shows "Stdout (txtSearchedLine (Name (heap st g)) (ID (heap st g))) \<in> set (trace st)"
  using assms
  unfolding startApplication_def Let_def
  by (auto split: prod.splits sum.splits if_splits simp: errorAndExit_def
      intro: summary_lines)

section \<open>The claims\<close>

text \<open>
  C10. Whichever way a run ends, the lists \<open>failedGames\<close> and \<open>errorMessages\<close> have
  the same length in its last state, and the run does not panic: the summary's
  \<open>errorMessages[i]\<close>, with \<open>i\<close> an index of \<open>failedGames\<close>, is always in bounds.
  Every step of the program keeps the two lengths equal (the lemmas \<open>paired_\<dots>\<close>), the
  functions of \<open>env\<close> being arbitrary.
\<close>

theorem failed_games_and_messages_parallel:
  "length (failedGames (final (startApplication env w)))
     = length (errorMessages (final (startApplication env w)))
   \<and> \<not> panicked (startApplication env w)"
  using startApplication_paired [of env w] by (simp add: paired_def)
text \<open>
  C4. A call of \<open>DownloadImage\<close> that returns an error ends the whole run: the run
  exits through \<open>errorAndExit\<close>, and after the failed call it does nothing but print
  the error, wait for a line and exit. There is no second call for the game and no
  next game; no call that failed comes before it either.
\<close>

theorem download_error_aborts_run:
  assumes "CallDownloadImage d g src b (Some e) \<in> set (trace (final (startApplication env w)))"
  shows "\<exists>st pre. startApplication env w = Exited st
           \<and> trace st = pre @ [CallDownloadImage d g src b (Some e), Stdout (e @ nl), ReadLine, Exit 0]
           \<and> noDownloadFailed pre"
proof -
  have bad: "\<not> noDownloadFailed (trace (final (startApplication env w)))"
    using assms by (force simp: noDownloadFailed_def list_all_iff)
  have a: "abortsOnDownload (startApplication env w)"
    by (rule abortsOnDownload_startApplication)
  show ?thesis
  proof (cases "startApplication env w")
    case (Exited st)
    with a bad obtain pre d' g' src' b' e' where
      t: "trace st = pre @ [CallDownloadImage d' g' src' b' (Some e'), Stdout (e' @ nl), ReadLine, Exit 0]"
      and p: "noDownloadFailed pre"
      by (auto simp: abortsOnDownload_def)
    from assms Exited t p have "CallDownloadImage d g src b (Some e) = CallDownloadImage d' g' src' b' (Some e')"
      by (auto simp: noDownloadFailed_def list_all_iff)
    with Exited t p show ?thesis by simp
  qed (use a bad in simp_all)
qed


theorem download_error_aborts_run_witness:
  "CallDownloadImage ''u/config/grid new'' 0 [] False (Some ''timeout'')
     \<in> set (trace (final (startApplication timeoutEnv ())))
   \<and> (\<exists>st pre. startApplication timeoutEnv () = Exited st
         \<and> trace st = pre @ [CallDownloadImage ''u/config/grid new'' 0 [] False (Some ''timeout''),
                             Stdout (''timeout'' @ nl), ReadLine, Exit 0]
         \<and> noDownloadFailed pre)"
proof -
  have h: "CallDownloadImage ''u/config/grid new'' 0 [] False (Some ''timeout'')
             \<in> set (trace (final (startApplication timeoutEnv ())))"
    unfolding timeoutEnv_trace by simp
  from h download_error_aborts_run [OF h] show ?thesis by (rule conjI)
qed



text \<open>
  C6, as amended. A game that reaches ``Save result'' and whose \<open>ImageExt\<close> is empty
  after \<open>BackupGame\<close> has returned without error: the loop exits at once. After the call
  of \<open>BackupGame\<close> the run does the three things of \<open>errorAndExit\<close> and nothing else, so
  the game's image is not written into the new grid and no later game is processed.
  The call of \<open>BackupGame\<close> comes before the check.
\<close>

theorem empty_extension_aborts_before_image_write:
  assumes "beforeSave env overlays newGridDir n (i + 1) game st = Normal st1"
    and "BackupGame env (world st1) newGridDir (heap st1 game) = (w, g, None)"
    and "ImageExt g = []"
  shows "\<exists>st'. processGames env overlays newGridDir n i (game # rest) st = Exited st'
           \<and> trace st' = trace st1 @
                [CallBackupGame newGridDir game None, Stdout (txtFailedIdentify @ nl),
                 ReadLine, Exit 0]"
proof -
  let ?st' = "emit (Exit 0) (emit ReadLine (Println txtFailedIdentify
                (emit (CallBackupGame newGridDir game None)
                   (st1\<lparr>world := w, heap := (heap st1)(game := g)\<rparr>))))"
  have "saveResult env newGridDir game st1 = Exited ?st'"
    using saveResult_no_extension [OF assms(2,3)] by (simp add: errorAndExit_def)
  with assms(1) have "processGame env overlays newGridDir n (i + 1) game st = Exited ?st'"
    by (simp add: processGame_def)
  then have "processGames env overlays newGridDir n i (game # rest) st = Exited ?st'"
    by simp
  then show ?thesis
    by (intro exI [of _ ?st']) simp
qed

theorem empty_extension_aborts_before_image_write_witness:
  "\<exists>st1. beforeSave unknownExtEnv [] ''d'' 1 (0 + 1) 0 demoState = Normal st1
     \<and> BackupGame unknownExtEnv (world st1) ''d'' (heap st1 0)
         = ((), demoFound\<lparr>ImageExt := []\<rparr>, None)
     \<and> ImageExt (demoFound\<lparr>ImageExt := []\<rparr>) = []
     \<and> (\<exists>st'. processGames unknownExtEnv [] ''d'' 1 0 [0] demoState = Exited st'
            \<and> trace st' = trace st1 @
                 [CallBackupGame ''d'' 0 None, Stdout (txtFailedIdentify @ nl), ReadLine,
                  Exit 0])"
proof -
  from unknownExtEnv_beforeSave obtain st1 where
    h1: "beforeSave unknownExtEnv [] ''d'' 1 (0 + 1) 0 demoState = Normal st1"
    and w: "world st1 = ()" and g: "heap st1 0 = demoFound\<lparr>ImageExt := []\<rparr>"
    by auto
  have h2: "BackupGame unknownExtEnv (world st1) ''d'' (heap st1 0)
              = ((), demoFound\<lparr>ImageExt := []\<rparr>, None)"
    by (simp add: w g unknownExtEnv_def demoEnv_def)
  have h3: "ImageExt (demoFound\<lparr>ImageExt := []\<rparr>) = []"
    by simp
  from empty_extension_aborts_before_image_write [OF h1 h2 h3, where rest = "[]"] h1 h2 h3
  show ?thesis by blast
qed

text \<open>
  C6 as it is written fails, with \<open>BackupGame\<close> as the specification describes it: in
  this run the image of game 42 has no known format; the run is aborted, and the backup
  of the game is in the staging directory, which was empty before.
\<close>

theorem backup_written_before_abort:
  "\<exists>st. startApplication unknownFormatEnv emptyFiles = Exited st
     \<and> last (butlast (butlast (trace st))) = Stdout (txtFailedIdentify @ nl)
     \<and> world st ''u/config/grid new/originals/42'' = Some (RegularFile ''abc'')
     \<and> emptyFiles ''u/config/grid new/originals/42'' = None"
proof -
  from unknownFormatEnv_run obtain st where
    "startApplication unknownFormatEnv emptyFiles = Exited st"
    "last (butlast (butlast (trace st))) = Stdout (txtFailedIdentify @ nl)"
    "world st ''u/config/grid new/originals/42'' = Some (RegularFile ''abc'')"
    by auto
  then show ?thesis by (auto simp: emptyFiles_def)
qed

text \<open>
  C8, as amended. A game that reaches ``Save result'', whose backup succeeds, whose
  \<open>ImageExt\<close> is not empty, and for which the write of the image into the new grid
  fails: the iteration ends normally and the loop goes on with the next game; the
  failure is printed; and the three summary lists and the messages are what they were
  before ``Save result'': the failed write puts the game into no list.
\<close>

theorem failed_write_is_printed_and_skipped:
  assumes "beforeSave env overlays newGridDir n (i + 1) game st = Normal st1"
    and "BackupGame env (world st1) newGridDir (heap st1 game) = (w, g, None)"
    and "ImageExt g \<noteq> []"
    and "WriteFile env w (Join [newGridDir, ID g @ ImageExt g]) (OverlayImageBytes g)
           = (w2, Some e)"
  shows "\<exists>st'. processGame env overlays newGridDir n (i + 1) game st = Normal st'
           \<and> processGames env overlays newGridDir n i (game # rest) st
               = processGames env overlays newGridDir n (i + 1) rest st'
           \<and> trace st' = trace st1 @
                [CallBackupGame newGridDir game None,
                 CallWriteFile (Join [newGridDir, ID g @ ImageExt g]) (OverlayImageBytes g)
                   (Some e),
                 Stdout (txtFailedWrite (Name g) e)]
           \<and> notFounds st' = notFounds st1
           \<and> searchedGames st' = searchedGames st1
           \<and> failedGames st' = failedGames st1
           \<and> errorMessages st' = errorMessages st1"
proof -
  let ?st' = "Printf (txtFailedWrite (Name g) e)
                (emit (CallWriteFile (Join [newGridDir, ID g @ ImageExt g])
                         (OverlayImageBytes g) (Some e))
                   ((emit (CallBackupGame newGridDir game None)
                       (st1\<lparr>world := w, heap := (heap st1)(game := g)\<rparr>))
                    \<lparr>world := w2\<rparr>))"
  have "saveResult env newGridDir game st1 = Normal ?st'"
    by (rule saveResult_write_failed [OF assms(2,3,4)])
  with assms(1) have c: "processGame env overlays newGridDir n (i + 1) game st = Normal ?st'"
    by (simp add: processGame_def)
  then have "processGames env overlays newGridDir n i (game # rest) st
               = processGames env overlays newGridDir n (i + 1) rest ?st'"
    by simp
  with c show ?thesis
    by (intro exI [of _ ?st']) simp
qed

theorem failed_write_is_printed_and_skipped_witness:
  "\<exists>st1. beforeSave writeFailEnv [] ''d'' 1 (0 + 1) 0 demoState = Normal st1
     \<and> BackupGame writeFailEnv (world st1) ''d'' (heap st1 0) = ((), demoFound, None)
     \<and> ImageExt demoFound \<noteq> []
     \<and> WriteFile writeFailEnv () (Join [''d'', ID demoFound @ ImageExt demoFound])
          (OverlayImageBytes demoFound) = ((), Some ''disk full'')
     \<and> (\<exists>st'. processGame writeFailEnv [] ''d'' 1 (0 + 1) 0 demoState = Normal st'
            \<and> trace st' = trace st1 @
                 [CallBackupGame ''d'' 0 None,
                  CallWriteFile (Join [''d'', ID demoFound @ ImageExt demoFound])
                    (OverlayImageBytes demoFound) (Some ''disk full''),
                  Stdout (txtFailedWrite (Name demoFound) ''disk full'')]
            \<and> notFounds st' = [] \<and> searchedGames st' = [] \<and> failedGames st' = [])"
proof -
  from writeFailEnv_beforeSave obtain st1 where
    h1: "beforeSave writeFailEnv [] ''d'' 1 (0 + 1) 0 demoState = Normal st1"
    and w: "world st1 = ()" and g: "heap st1 0 = demoFound"
    and b: "notFounds st1 = []" "searchedGames st1 = []" "failedGames st1 = []"
    by auto
  have h2: "BackupGame writeFailEnv (world st1) ''d'' (heap st1 0) = ((), demoFound, None)"
    by (simp add: w g writeFailEnv_def demoEnv_def)
  have h3: "ImageExt demoFound \<noteq> []"
    by (simp add: demoFound_def)
  have h4: "WriteFile writeFailEnv () (Join [''d'', ID demoFound @ ImageExt demoFound])
              (OverlayImageBytes demoFound) = ((), Some ''disk full'')"
    by (simp add: writeFailEnv_def demoEnv_def)
  from failed_write_is_printed_and_skipped [OF h1 h2 h3 h4, where rest = "[]"]
  obtain st' where "processGame writeFailEnv [] ''d'' 1 (0 + 1) 0 demoState = Normal st'"
    "trace st' = trace st1 @
       [CallBackupGame ''d'' 0 None,
        CallWriteFile (Join [''d'', ID demoFound @ ImageExt demoFound])
          (OverlayImageBytes demoFound) (Some ''disk full''),
        Stdout (txtFailedWrite (Name demoFound) ''disk full'')]"
    "notFounds st' = []" "searchedGames st' = []" "failedGames st' = []"
    by (auto simp: b)
  with h1 h2 h3 h4 show ?thesis by blast
qed

text \<open>
  C8 as it is written fails: in this run the write of the image of game 0 fails, the
  run goes on to its end, and the game is in none of the three summary lists.
\<close>

theorem failed_write_enters_no_list:
  "\<exists>st. startApplication writeFailEnv () = Normal st
     \<and> CallWriteFile ''u/config/grid new/42.jpg'' (Some ''abc'') (Some ''disk full'')
         \<in> set (trace st)
     \<and> 0 \<notin> set (notFounds st) \<and> 0 \<notin> set (searchedGames st) \<and> 0 \<notin> set (failedGames st)"
proof -
  from writeFailEnv_run obtain st where
    "startApplication writeFailEnv () = Normal st"
    "CallWriteFile ''u/config/grid new/42.jpg'' (Some ''abc'') (Some ''disk full'')
       \<in> set (trace st)"
    "notFounds st = []" "searchedGames st = []" "failedGames st = []"
    by auto
  then show ?thesis by auto
qed





text \<open>
  C2, as amended, on the file system of section ``A file system''. When the loop over
  the games of a user has ended normally, in the state \<open>stL\<close>, and the removal of the
  live grid directory or the rename of the staging directory fails, the run is aborted
  at once: the iteration for the user exits, no later user is processed and no summary
  is printed. The staging directory \<open>gridDir + " new"\<close> and everything below it is as
  the loop left it. If the removal failed, no rename is attempted; if the removal
  succeeded and the rename failed, nothing is left at the live grid directory or below
  it, and the new grid exists under the staging name only.
\<close>

theorem failed_swap_aborts_run:
  assumes "RemoveAll env = os_RemoveAll ft" and "Rename env = os_Rename ft"
    and "fillStaging env overlays user st = Normal stL"
    and "fails ft (OsRemoveAll (gridDirOf user)) \<noteq> None
         \<or> fails ft (OsRename (gridDirOf user @ '' new'') (gridDirOf user)) \<noteq> None"
  shows "\<exists>st'. processUser env overlays user st = Exited st'
     \<and> andThen (processUsers env overlays (user # rest) st) printSummary = Exited st'
     \<and> (\<forall>q. inside (gridDirOf user @ '' new'') q \<longrightarrow> world st' q = world stL q)
     \<and> (case fails ft (OsRemoveAll (gridDirOf user)) of
           Some e \<Rightarrow>
             trace st' = trace stL @
               [Stdout (txtRemovingOld @ nl), CallRemoveAll (gridDirOf user) (Some e),
                Stdout (txtFailedRemove @ nl), Stdout (e @ nl), ReadLine, Exit 0]
         | None \<Rightarrow>
             (\<exists>e. fails ft (OsRename (gridDirOf user @ '' new'') (gridDirOf user)) = Some e
                \<and> (\<forall>q. inside (gridDirOf user) q \<longrightarrow> world st' q = None)
                \<and> trace st' = trace stL @
                     [Stdout (txtRemovingOld @ nl), CallRemoveAll (gridDirOf user) None,
                      Stdout (txtMoving @ nl),
                      CallRename (gridDirOf user @ '' new'') (gridDirOf user) (Some e),
                      Stdout (txtFailedMove @ nl), Stdout (e @ nl), ReadLine, Exit 0]))"
proof -
  let ?gd = "gridDirOf user" and ?nd = "gridDirOf user @ '' new''"
  have pu: "processUser env overlays user st = swapGrid env ?gd ?nd stL"
    by (simp add: processUser_fillStaging assms(3) newGridDirOf_def)
  obtain w1 r1 where rm: "os_RemoveAll ft (world stL) ?gd = (w1, r1)"
    by (cases "os_RemoveAll ft (world stL) ?gd")
  have w1: "w1 q = world stL q" if "inside ?nd q" for q
    using os_RemoveAll_outside [OF staging_outside_live [OF that], of ft "world stL"] rm
    by simp
  have r1: "r1 = fails ft (OsRemoveAll ?gd)"
    using os_RemoveAll_result [of ft "world stL" ?gd] rm by simp
  show ?thesis
  proof (cases r1)
    case (Some e)
    define st' where "st' = emit (Exit 0) (emit ReadLine (Println e (Println txtFailedRemove
        (emit (CallRemoveAll ?gd (Some e)) ((Println txtRemovingOld stL)\<lparr>world := w1\<rparr>)))))"
    from Some rm have sw: "swapGrid env ?gd ?nd stL = Exited st'"
      by (simp add: swapGrid_def Let_def errorAndExit_def assms(1) st'_def)
    have "processUser env overlays user st = Exited st'"
      using pu sw by simp
    moreover from this
    have "andThen (processUsers env overlays (user # rest) st) printSummary = Exited st'"
      by simp
    moreover have "\<forall>q. inside ?nd q \<longrightarrow> world st' q = world stL q"
      using w1 by (simp add: st'_def)
    moreover have "trace st' = trace stL @
               [Stdout (txtRemovingOld @ nl), CallRemoveAll ?gd (Some e),
                Stdout (txtFailedRemove @ nl), Stdout (e @ nl), ReadLine, Exit 0]"
      by (simp add: st'_def)
    ultimately show ?thesis
      using Some r1 by (intro exI [of _ st']) simp
  next
    case None
    obtain w2 r2 where rn: "os_Rename ft w1 ?nd ?gd = (w2, r2)"
      by (cases "os_Rename ft w1 ?nd ?gd")
    have "r2 = fails ft (OsRename ?nd ?gd)"
      using os_Rename_result [of ft w1 ?nd ?gd] rn by simp
    with assms(4) None r1 obtain e where r2: "r2 = Some e" and fe: "fails ft (OsRename ?nd ?gd) = Some e"
      by auto
    with os_Rename_failed [of ft w1 ?nd ?gd e] rn have w2: "w2 = w1" by simp
    define st' where "st' = emit (Exit 0) (emit ReadLine (Println e (Println txtFailedMove
        (emit (CallRename ?nd ?gd (Some e))
           ((Println txtMoving (emit (CallRemoveAll ?gd None)
               ((Println txtRemovingOld stL)\<lparr>world := w1\<rparr>)))\<lparr>world := w2\<rparr>)))))"
    from None rm rn r2 have sw: "swapGrid env ?gd ?nd stL = Exited st'"
      by (simp add: swapGrid_def Let_def errorAndExit_def assms(1,2) st'_def)
    have gone: "w1 q = None" if "inside ?gd q" for q
      using os_RemoveAll_done [OF _ that, of ft "world stL"] rm None r1 by simp
    have "processUser env overlays user st = Exited st'"
      using pu sw by simp
    moreover from this
    have "andThen (processUsers env overlays (user # rest) st) printSummary = Exited st'"
      by simp
    moreover have "\<forall>q. inside ?nd q \<longrightarrow> world st' q = world stL q"
      using w1 w2 by (simp add: st'_def)
    moreover have "\<forall>q. inside ?gd q \<longrightarrow> world st' q = None"
      using gone w2 by (simp add: st'_def)
    moreover have "trace st' = trace stL @
                     [Stdout (txtRemovingOld @ nl), CallRemoveAll ?gd None,
                      Stdout (txtMoving @ nl), CallRename ?nd ?gd (Some e),
                      Stdout (txtFailedMove @ nl), Stdout (e @ nl), ReadLine, Exit 0]"
      by (simp add: st'_def)
    ultimately show ?thesis
      using None r1 fe by (intro exI [of _ st']) simp
  qed
qed

theorem failed_swap_aborts_run_witness:
  "(RemoveAll renameFailEnv = os_RemoveAll renameFails
    \<and> Rename renameFailEnv = os_Rename renameFails
    \<and> fails renameFails (OsRemoveAll (gridDirOf demoUser)) = None
    \<and> fails renameFails (OsRename (gridDirOf demoUser @ '' new'') (gridDirOf demoUser))
        = Some ''access denied''
    \<and> (\<exists>stL st'.
          fillStaging renameFailEnv [] demoUser (initState liveFiles) = Normal stL
        \<and> world stL ''u/config/grid new/42.jpg'' = Some (RegularFile ''abc'')
        \<and> world stL ''u/config/grid/42.jpg'' = Some (RegularFile ''old'')
        \<and> processUser renameFailEnv [] demoUser (initState liveFiles) = Exited st'
        \<and> andThen (processUsers renameFailEnv [] [demoUser] (initState liveFiles)) printSummary
            = Exited st'
        \<and> world st' ''u/config/grid new/42.jpg'' = Some (RegularFile ''abc'')
        \<and> world st' ''u/config/grid/42.jpg'' = None
        \<and> trace st' = trace stL @
             [Stdout (txtRemovingOld @ nl), CallRemoveAll ''u/config/grid'' None,
              Stdout (txtMoving @ nl),
              CallRename ''u/config/grid new'' ''u/config/grid'' (Some ''access denied''),
              Stdout (txtFailedMove @ nl), Stdout (''access denied'' @ nl), ReadLine, Exit 0]))
   \<and> (RemoveAll removeFailEnv = os_RemoveAll removeFails
    \<and> Rename removeFailEnv = os_Rename removeFails
    \<and> fails removeFails (OsRemoveAll (gridDirOf demoUser)) = Some ''directory in use''
    \<and> (\<exists>stL st'.
          fillStaging removeFailEnv [] demoUser (initState liveFiles) = Normal stL
        \<and> world stL ''u/config/grid new/42.jpg'' = Some (RegularFile ''abc'')
        \<and> processUser removeFailEnv [] demoUser (initState liveFiles) = Exited st'
        \<and> andThen (processUsers removeFailEnv [] [demoUser] (initState liveFiles)) printSummary
            = Exited st'
        \<and> world st' ''u/config/grid new/42.jpg'' = Some (RegularFile ''abc'')
        \<and> trace st' = trace stL @
             [Stdout (txtRemovingOld @ nl),
              CallRemoveAll ''u/config/grid'' (Some ''directory in use''),
              Stdout (txtFailedRemove @ nl), Stdout (''directory in use'' @ nl), ReadLine,
              Exit 0]))"
proof -
  note gd = gridDirOf_demoUser
  have first: "RemoveAll renameFailEnv = os_RemoveAll renameFails
    \<and> Rename renameFailEnv = os_Rename renameFails
    \<and> fails renameFails (OsRemoveAll (gridDirOf demoUser)) = None
    \<and> fails renameFails (OsRename (gridDirOf demoUser @ '' new'') (gridDirOf demoUser))
        = Some ''access denied''
    \<and> (\<exists>stL st'.
          fillStaging renameFailEnv [] demoUser (initState liveFiles) = Normal stL
        \<and> world stL ''u/config/grid new/42.jpg'' = Some (RegularFile ''abc'')
        \<and> world stL ''u/config/grid/42.jpg'' = Some (RegularFile ''old'')
        \<and> processUser renameFailEnv [] demoUser (initState liveFiles) = Exited st'
        \<and> andThen (processUsers renameFailEnv [] [demoUser] (initState liveFiles)) printSummary
            = Exited st'
        \<and> world st' ''u/config/grid new/42.jpg'' = Some (RegularFile ''abc'')
        \<and> world st' ''u/config/grid/42.jpg'' = None
        \<and> trace st' = trace stL @
             [Stdout (txtRemovingOld @ nl), CallRemoveAll ''u/config/grid'' None,
              Stdout (txtMoving @ nl),
              CallRename ''u/config/grid new'' ''u/config/grid'' (Some ''access denied''),
              Stdout (txtFailedMove @ nl), Stdout (''access denied'' @ nl), ReadLine, Exit 0])"
  proof -
    have h1: "RemoveAll renameFailEnv = os_RemoveAll renameFails"
      and h2: "Rename renameFailEnv = os_Rename renameFails"
      by (simp_all add: renameFailEnv_def onFiles_def)
    have f1: "fails renameFails (OsRemoveAll (gridDirOf demoUser)) = None"
      and f2: "fails renameFails (OsRename (gridDirOf demoUser @ '' new'') (gridDirOf demoUser))
                 = Some ''access denied''"
      by (simp_all add: renameFails_def)
    from renameFailEnv_fillStaging obtain stL where
      h3: "fillStaging renameFailEnv [] demoUser (initState liveFiles) = Normal stL"
      and w: "world stL ''u/config/grid new/42.jpg'' = Some (RegularFile ''abc'')"
        "world stL ''u/config/grid/42.jpg'' = Some (RegularFile ''old'')"
      by auto
    have h4: "fails renameFails (OsRemoveAll (gridDirOf demoUser)) \<noteq> None
         \<or> fails renameFails (OsRename (gridDirOf demoUser @ '' new'') (gridDirOf demoUser))
             \<noteq> None"
      using f2 by simp
    have g1: "fails renameFails (OsRemoveAll ''u/config/grid'') = None"
      and g2: "fails renameFails (OsRename (''u/config/grid'' @ '' new'') ''u/config/grid'')
                 = Some ''access denied''"
      by (simp_all add: renameFails_def)
    from failed_swap_aborts_run [OF h1 h2 h3 h4, of "[]", unfolded gd, unfolded g1 g2 option.case]
    obtain st' where
      a: "processUser renameFailEnv [] demoUser (initState liveFiles) = Exited st'"
      and b: "andThen (processUsers renameFailEnv [] [demoUser] (initState liveFiles))
                printSummary = Exited st'"
      and c: "\<forall>q. inside (''u/config/grid'' @ '' new'') q \<longrightarrow> world st' q = world stL q"
      and d: "\<forall>q. inside ''u/config/grid'' q \<longrightarrow> world st' q = None"
      and e: "trace st' = trace stL @
             [Stdout (txtRemovingOld @ nl), CallRemoveAll ''u/config/grid'' None,
              Stdout (txtMoving @ nl),
              CallRename (''u/config/grid'' @ '' new'') ''u/config/grid'' (Some ''access denied''),
              Stdout (txtFailedMove @ nl), Stdout (''access denied'' @ nl), ReadLine, Exit 0]"
      by auto
    from c w(1) have c': "world st' ''u/config/grid new/42.jpg'' = Some (RegularFile ''abc'')"
      by (simp add: inside_def)
    from d have d': "world st' ''u/config/grid/42.jpg'' = None"
      by (simp add: inside_def)
    from e have e': "trace st' = trace stL @
             [Stdout (txtRemovingOld @ nl), CallRemoveAll ''u/config/grid'' None,
              Stdout (txtMoving @ nl),
              CallRename ''u/config/grid new'' ''u/config/grid'' (Some ''access denied''),
              Stdout (txtFailedMove @ nl), Stdout (''access denied'' @ nl), ReadLine, Exit 0]"
      by simp
    from h1 h2 f1 f2 h3 w a b c' d' e' show ?thesis
      by blast
  qed
  have second: "RemoveAll removeFailEnv = os_RemoveAll removeFails
    \<and> Rename removeFailEnv = os_Rename removeFails
    \<and> fails removeFails (OsRemoveAll (gridDirOf demoUser)) = Some ''directory in use''
    \<and> (\<exists>stL st'.
          fillStaging removeFailEnv [] demoUser (initState liveFiles) = Normal stL
        \<and> world stL ''u/config/grid new/42.jpg'' = Some (RegularFile ''abc'')
        \<and> processUser removeFailEnv [] demoUser (initState liveFiles) = Exited st'
        \<and> andThen (processUsers removeFailEnv [] [demoUser] (initState liveFiles)) printSummary
            = Exited st'
        \<and> world st' ''u/config/grid new/42.jpg'' = Some (RegularFile ''abc'')
        \<and> trace st' = trace stL @
             [Stdout (txtRemovingOld @ nl),
              CallRemoveAll ''u/config/grid'' (Some ''directory in use''),
              Stdout (txtFailedRemove @ nl), Stdout (''directory in use'' @ nl), ReadLine,
              Exit 0])"
  proof -
    have h1: "RemoveAll removeFailEnv = os_RemoveAll removeFails"
      and h2: "Rename removeFailEnv = os_Rename removeFails"
      by (simp_all add: removeFailEnv_def onFiles_def)
    have f1: "fails removeFails (OsRemoveAll (gridDirOf demoUser)) = Some ''directory in use''"
      by (simp add: removeFails_def)
    from removeFailEnv_fillStaging obtain stL where
      h3: "fillStaging removeFailEnv [] demoUser (initState liveFiles) = Normal stL"
      and w: "world stL ''u/config/grid new/42.jpg'' = Some (RegularFile ''abc'')"
      by auto
    have h4: "fails removeFails (OsRemoveAll (gridDirOf demoUser)) \<noteq> None
         \<or> fails removeFails (OsRename (gridDirOf demoUser @ '' new'') (gridDirOf demoUser))
             \<noteq> None"
      using f1 by simp
    have g1: "fails removeFails (OsRemoveAll ''u/config/grid'') = Some ''directory in use''"
      by (simp add: removeFails_def)
    from failed_swap_aborts_run [OF h1 h2 h3 h4, of "[]", unfolded gd, unfolded g1 option.case]
    obtain st' where
      a: "processUser removeFailEnv [] demoUser (initState liveFiles) = Exited st'"
      and b: "andThen (processUsers removeFailEnv [] [demoUser] (initState liveFiles))
                printSummary = Exited st'"
      and c: "\<forall>q. inside (''u/config/grid'' @ '' new'') q \<longrightarrow> world st' q = world stL q"
      and e: "trace st' = trace stL @
             [Stdout (txtRemovingOld @ nl),
              CallRemoveAll ''u/config/grid'' (Some ''directory in use''),
              Stdout (txtFailedRemove @ nl), Stdout (''directory in use'' @ nl), ReadLine,
              Exit 0]"
      by auto
    from c w have c': "world st' ''u/config/grid new/42.jpg'' = Some (RegularFile ''abc'')"
      by (simp add: inside_def)
    from h1 h2 f1 h3 w a b c' e show ?thesis
      by blast
  qed
  from first second show ?thesis
    by (rule conjI)
qed

text \<open>
  C2 as it is written fails: in this run the staging directory is fully written, the
  removal of the live grid succeeds and the rename fails. The run exits, and the live
  grid directory and the image that was in it are gone; the new image is under the
  staging name.
\<close>

theorem live_grid_lost_when_rename_fails:
  "\<exists>st. startApplication renameFailEnv liveFiles = Exited st
     \<and> CallRename ''u/config/grid new'' ''u/config/grid'' (Some ''access denied'')
         \<in> set (trace st)
     \<and> liveFiles ''u/config/grid'' = Some Directory
     \<and> liveFiles ''u/config/grid/42.jpg'' = Some (RegularFile ''old'')
     \<and> world st ''u/config/grid'' = None
     \<and> world st ''u/config/grid/42.jpg'' = None
     \<and> world st ''u/config/grid new/42.jpg'' = Some (RegularFile ''abc'')"
proof -
  from renameFailEnv_run obtain st where
    "startApplication renameFailEnv liveFiles = Exited st"
    "CallRename ''u/config/grid new'' ''u/config/grid'' (Some ''access denied'')
       \<in> set (trace st)"
    "world st ''u/config/grid'' = None" "world st ''u/config/grid/42.jpg'' = None"
    "world st ''u/config/grid new/42.jpg'' = Some (RegularFile ''abc'')"
    by auto
  then show ?thesis by (auto simp: liveFiles_def)
qed

text \<open>
  C9, as amended. In every run, a game for which \<open>DownloadImage\<close> returned without an
  error, with \<open>fromSearch\<close> true and a non-empty \<open>ImageSource\<close>, is in the list of the
  games found by the search and is not in the list of the games not found; when the
  run comes to its end, the summary has the line of the game in its first section.
  The game is in the list of the games whose overlay failed exactly if \<open>ApplyOverlay\<close>
  returned an error for it: that it was found by the search does not keep it out of
  that list.
\<close>

theorem searched_game_is_listed:
  assumes "CallDownloadImage d g src True None \<in> set (trace (final (startApplication env w)))"
    and "src \<noteq> []"
  shows "g \<in> set (searchedGames (final (startApplication env w)))
     \<and> g \<notin> set (notFounds (final (startApplication env w)))
     \<and> (g \<in> set (failedGames (final (startApplication env w)))
          \<longleftrightarrow> (\<exists>e. CallApplyOverlay g (Some e)
                      \<in> set (trace (final (startApplication env w)))))
     \<and> (\<forall>st. startApplication env w = Normal st \<longrightarrow>
           Stdout (txtSearchedLine (Name (heap st g)) (ID (heap st g))) \<in> set (trace st))"
proof -
  let ?st = "final (startApplication env w)"
  have a: "listsAgree ?st"
    by (rule startApplication_lists)
  from assms have f: "list_ex (foundBySearch g) (trace ?st)"
    unfolding list_ex_iff by (intro bexI [of _ "CallDownloadImage d g src True None"]) simp_all
  from assms have l: "list_ex (leftSource g) (trace ?st)"
    unfolding list_ex_iff by (intro bexI [of _ "CallDownloadImage d g src True None"]) simp_all
  from a f have 1: "g \<in> set (searchedGames ?st)"
    by (simp add: listsAgree_def)
  from a l have 2: "g \<notin> set (notFounds ?st)"
    unfolding listsAgree_def by blast
  have o: "list_ex (overlayFailedOf g) tr \<longleftrightarrow> (\<exists>e. CallApplyOverlay g (Some e) \<in> set tr)"
    for tr
  proof
    assume "list_ex (overlayFailedOf g) tr"
    then obtain ev where ev: "ev \<in> set tr" "overlayFailedOf g ev"
      by (auto simp: list_ex_iff)
    from ev(2) obtain e where "ev = CallApplyOverlay g (Some e)"
      by (cases ev) auto
    with ev show "\<exists>e. CallApplyOverlay g (Some e) \<in> set tr" by blast
  next
    assume "\<exists>e. CallApplyOverlay g (Some e) \<in> set tr"
    then obtain e where "CallApplyOverlay g (Some e) \<in> set tr" by blast
    then show "list_ex (overlayFailedOf g) tr"
      unfolding list_ex_iff by (intro bexI [of _ "CallApplyOverlay g (Some e)"]) simp_all
  qed
  from a have "g \<in> set (failedGames ?st) \<longleftrightarrow> list_ex (overlayFailedOf g) (trace ?st)"
    by (simp add: listsAgree_def)
  with o [of "trace ?st"] have 3: "g \<in> set (failedGames ?st)
          \<longleftrightarrow> (\<exists>e. CallApplyOverlay g (Some e) \<in> set (trace ?st))"
    by simp
  have 4: "Stdout (txtSearchedLine (Name (heap st g)) (ID (heap st g))) \<in> set (trace st)"
    if n: "startApplication env w = Normal st" for st
    using startApplication_lines [OF n, of g] 1 n by simp
  from 1 2 3 4 show ?thesis by blast
qed

theorem searched_game_is_listed_witness:
  "CallDownloadImage ''u/config/grid new'' 0 ''search'' True None
     \<in> set (trace (final (startApplication searchEnv ())))
   \<and> ''search'' \<noteq> []
   \<and> 0 \<in> set (searchedGames (final (startApplication searchEnv ())))
   \<and> 0 \<notin> set (notFounds (final (startApplication searchEnv ())))
   \<and> 0 \<notin> set (failedGames (final (startApplication searchEnv ())))
   \<and> (\<exists>st. startApplication searchEnv () = Normal st
          \<and> Stdout (txtSearchedLine (Name (heap st 0)) (ID (heap st 0))) \<in> set (trace st)
          \<and> Name (heap st 0) = ''Foo'' \<and> ID (heap st 0) = ''42'')"
proof -
  from searchEnv_run obtain st where
    r: "startApplication searchEnv () = Normal st"
    and d: "CallDownloadImage ''u/config/grid new'' 0 ''search'' True None \<in> set (trace st)"
    and n: "\<forall>e. CallApplyOverlay 0 (Some e) \<notin> set (trace st)"
    and h: "Name (heap st 0) = ''Foo''" "ID (heap st 0) = ''42''"
    by auto
  from r d have h1: "CallDownloadImage ''u/config/grid new'' 0 ''search'' True None
                       \<in> set (trace (final (startApplication searchEnv ())))"
    by simp
  have h2: "''search'' \<noteq> []" by simp
  from searched_game_is_listed [OF h1 h2]
  have a: "0 \<in> set (searchedGames (final (startApplication searchEnv ())))"
    and b: "0 \<notin> set (notFounds (final (startApplication searchEnv ())))"
    and c: "0 \<in> set (failedGames (final (startApplication searchEnv ())))
          \<longleftrightarrow> (\<exists>e. CallApplyOverlay 0 (Some e)
                      \<in> set (trace (final (startApplication searchEnv ()))))"
    and e: "\<forall>st. startApplication searchEnv () = Normal st \<longrightarrow>
           Stdout (txtSearchedLine (Name (heap st 0)) (ID (heap st 0))) \<in> set (trace st)"
    by blast+
  from c r n have c': "0 \<notin> set (failedGames (final (startApplication searchEnv ())))"
    by simp
  from e r have e': "Stdout (txtSearchedLine (Name (heap st 0)) (ID (heap st 0)))
                       \<in> set (trace st)"
    by blast
  from h1 h2 a b c' r e' h show ?thesis
    by blast
qed

text \<open>
  C9 as it is written fails: in this run the image of the only game comes from the
  search, and then the overlay cannot be applied. The game is in the list of the games
  found by the search and in the list of the games whose overlay failed, and the
  summary names it in both sections.
\<close>

theorem searched_game_also_in_failed_list:
  "\<exists>st. startApplication searchFailEnv () = Normal st
     \<and> CallDownloadImage ''u/config/grid new'' 0 ''search'' True None \<in> set (trace st)
     \<and> searchedGames st = [0]
     \<and> failedGames st = [0]
     \<and> Stdout (txtSearchedLine ''Foo'' ''42'') \<in> set (trace st)
     \<and> Stdout (txtFailedLine ''Foo'' ''42'' ''bad image'') \<in> set (trace st)"
proof -
  from searchFailEnv_run obtain st where
    "startApplication searchFailEnv () = Normal st"
    "CallDownloadImage ''u/config/grid new'' 0 ''search'' True None \<in> set (trace st)"
    "searchedGames st = [0]" "failedGames st = [0]"
    "Stdout (txtSearchedLine ''Foo'' ''42'') \<in> set (trace st)"
    "Stdout (txtFailedLine ''Foo'' ''42'' ''bad image'') \<in> set (trace st)"
    by auto
  then show ?thesis by blast
qed

end
